theory Spec2Isabelle
  imports Main "HOL-Library.AList" "HOL-Library.Word"
begin

unbundle bit_operations_syntax

section \<open>Errors\<close>

text \<open>
  A thrown exception is a value. \<open>Error m\<close> is \<open>new Error(m)\<close> with an ASCII message; the
  three constructors that follow stand for the three \<open>Error\<close>s of AuthService whose
  messages are Chinese text (address shorter than 12 characters, longer than 32
  characters, invalid format); the last three are exceptions of the platform: the
  DOMException of \<open>atob\<close>, the SyntaxError of \<open>JSON.parse\<close> and a constraint failure of the
  D1 database.
\<close>

datatype error =
    Error string
  | EmailTooShort
  | EmailTooLong
  | EmailFormatInvalid
  | InvalidCharacterError
  | SyntaxError
  | ConstraintFailed

text \<open>\<open>.first()\<close> of a result set: the first row, or null.\<close>

fun first :: "'a list \<Rightarrow> 'a option" where
  "first [] = None"
| "first (x # xs) = Some x"

text \<open>\<open>value || null\<close> (and \<open>value || undefined\<close>) for an optional string: the empty
  string is falsy.\<close>

definition or_null :: "string option \<Rightarrow> string option" where
  "or_null v = (case v of None \<Rightarrow> None | Some s \<Rightarrow> if s = [] then None else Some s)"

section \<open>Strings and regular expressions\<close>

text \<open>
  A JavaScript string is a sequence of 16-bit code units. The tokens, hashes, salts and
  identifiers the server makes or accepts, the configured secret and lifetime, and the
  texts that \<open>btoa\<close> takes and \<open>atob\<close> gives lie in the code units 0 to 255 and are modelled
  as lists of 8-bit characters (\<open>string\<close>). A string that may hold a code unit above 255,
  such as an email address a client sends or a string of a claims object, is the list
  of its code units (\<open>jstring\<close>). \<open>code\<close> is \<open>charCodeAt\<close>, \<open>js\<close> takes an 8-bit string to its
  code units and \<open>narrow\<close> takes code units that are all at most 255 back.
\<close>

definition code :: "char \<Rightarrow> nat" where
  "code c = of_char c"

type_synonym jstring = "nat list"

definition js :: "string \<Rightarrow> jstring" where
  "js s = map code s"

definition latin1 :: "jstring \<Rightarrow> bool" where
  "latin1 s = list_all (\<lambda>n. n < 256) s"

definition narrow :: "jstring \<Rightarrow> string" where
  "narrow s = map char_of s"

text \<open>\<open>str.split(d)\<close> for a one-character separator.\<close>

fun split_on :: "char \<Rightarrow> string \<Rightarrow> string list" where
  "split_on d [] = [[]]"
| "split_on d (c # cs) =
     (if c = d then [] # split_on d cs
      else (case split_on d cs of [] \<Rightarrow> [[c]] | x # xs \<Rightarrow> (c # x) # xs))"

text \<open>
  The character classes and the operators that the program's patterns use. \<open>Dot\<close> is
  \<open>.\<close> (no line terminator), \<open>Space\<close> is \<open>\s\<close>, \<open>Word\<close> is \<open>\w\<close>, \<open>Digit\<close> is \<open>\d\<close>,
  \<open>NoneOf cs\<close> is \<open>[^cs]\<close>, \<open>NotSpaceNor cs\<close> is \<open>[^\scs]\<close>, \<open>HexDigit\<close> is \<open>[0-9a-fA-F]\<close>.
  Under the flag \<open>i\<close> a literal letter matches in either case. The patterns are written
  with 8-bit characters; the text they are matched against is a list of code units.
\<close>

datatype cclass = Lit char | AnyChar | Dot | Space | Word | Digit | HexDigit
  | NoneOf "char list" | NotSpaceNor "char list"

datatype regex = Null | Eps | Atom cclass | Seq regex regex | Alt regex regex | Star regex

definition is_space :: "nat \<Rightarrow> bool" where
  "is_space n \<longleftrightarrow> n \<in> {9, 10, 11, 12, 13, 32, 160, 5760, 8232, 8233, 8239, 8287, 12288, 65279}
     \<or> (8192 \<le> n \<and> n \<le> 8202)"

definition is_digit :: "nat \<Rightarrow> bool" where
  "is_digit n \<longleftrightarrow> 48 \<le> n \<and> n \<le> 57"

definition is_word :: "nat \<Rightarrow> bool" where
  "is_word n \<longleftrightarrow> is_digit n \<or> (65 \<le> n \<and> n \<le> 90) \<or> (97 \<le> n \<and> n \<le> 122) \<or> n = 95"

definition is_hex :: "nat \<Rightarrow> bool" where
  "is_hex n \<longleftrightarrow> is_digit n \<or> (65 \<le> n \<and> n \<le> 70) \<or> (97 \<le> n \<and> n \<le> 102)"

definition ascii_lower :: "nat \<Rightarrow> nat" where
  "ascii_lower n = (if 65 \<le> n \<and> n \<le> 90 then n + 32 else n)"

fun cclass_match :: "bool \<Rightarrow> cclass \<Rightarrow> nat \<Rightarrow> bool" where
  "cclass_match ic (Lit l) n = (if ic then ascii_lower (code l) = ascii_lower n else code l = n)"
| "cclass_match ic AnyChar n = True"
| "cclass_match ic Dot n = (n \<noteq> 10 \<and> n \<noteq> 13 \<and> n \<noteq> 8232 \<and> n \<noteq> 8233)"
| "cclass_match ic Space n = is_space n"
| "cclass_match ic Word n = is_word n"
| "cclass_match ic Digit n = is_digit n"
| "cclass_match ic HexDigit n = is_hex n"
| "cclass_match ic (NoneOf cs) n = (n \<notin> set (map code cs))"
| "cclass_match ic (NotSpaceNor cs) n = (\<not> is_space n \<and> n \<notin> set (map code cs))"

fun nullable :: "regex \<Rightarrow> bool" where
  "nullable Null = False"
| "nullable Eps = True"
| "nullable (Atom a) = False"
| "nullable (Seq r s) = (nullable r \<and> nullable s)"
| "nullable (Alt r s) = (nullable r \<or> nullable s)"
| "nullable (Star r) = True"

definition seq :: "regex \<Rightarrow> regex \<Rightarrow> regex" where
  "seq r s = (if r = Null \<or> s = Null then Null else if r = Eps then s else Seq r s)"

definition alt :: "regex \<Rightarrow> regex \<Rightarrow> regex" where
  "alt r s = (if r = Null then s else if s = Null \<or> r = s then r else Alt r s)"

text \<open>The derivative of a pattern by a character: what is left to match after it.\<close>

fun deriv :: "bool \<Rightarrow> nat \<Rightarrow> regex \<Rightarrow> regex" where
  "deriv ic c Null = Null"
| "deriv ic c Eps = Null"
| "deriv ic c (Atom a) = (if cclass_match ic a c then Eps else Null)"
| "deriv ic c (Seq r s) =
     (if nullable r then alt (seq (deriv ic c r) s) (deriv ic c s) else seq (deriv ic c r) s)"
| "deriv ic c (Alt r s) = alt (deriv ic c r) (deriv ic c s)"
| "deriv ic c (Star r) = seq (deriv ic c r) (Star r)"

text \<open>\<open>full_match\<close> is a pattern between \<open>^\<close> and \<open>$\<close>; \<open>search\<close> is \<open>pattern.test(str)\<close> for
  a pattern without anchors, on a fresh RegExp object.\<close>

definition full_match :: "bool \<Rightarrow> regex \<Rightarrow> jstring \<Rightarrow> bool" where
  "full_match ic r s = nullable (foldl (\<lambda>r c. deriv ic c r) r s)"

definition search :: "bool \<Rightarrow> regex \<Rightarrow> jstring \<Rightarrow> bool" where
  "search ic r s = full_match ic (Seq (Star (Atom AnyChar)) (Seq r (Star (Atom AnyChar)))) s"

definition plus :: "regex \<Rightarrow> regex" where
  "plus r = Seq r (Star r)"

fun lits :: "string \<Rightarrow> regex" where
  "lits [] = Eps"
| "lits [c] = Atom (Lit c)"
| "lits (c # cs) = Seq (Atom (Lit c)) (lits cs)"

section \<open>Validators (utils/helpers.ts, utils/input-validator.ts)\<close>

text \<open>helpers.ts, the one AuthService imports: \<open>/^[^\s@]+@[^\s@]+\.[^\s@]+$/\<close>\<close>

definition isValidEmail :: "jstring \<Rightarrow> bool" where
  "isValidEmail email =
     full_match False
       (Seq (plus (Atom (NotSpaceNor ''@'')))
         (Seq (Atom (Lit CHR ''@''))
           (Seq (plus (Atom (NotSpaceNor ''@'')))
             (Seq (Atom (Lit CHR ''.'')) (plus (Atom (NotSpaceNor ''@''))))))) email"

text \<open>input-validator.ts; \<open>!str\<close> rejects the empty string.\<close>

definition isValidLength :: "jstring \<Rightarrow> nat \<Rightarrow> nat \<Rightarrow> bool" where
  "isValidLength str lo hi = (str \<noteq> [] \<and> length str \<ge> lo \<and> length str \<le> hi)"

definition isValidHex :: "jstring \<Rightarrow> bool" where
  "isValidHex str = (str \<noteq> [] \<and> full_match False (plus (Atom HexDigit)) str)"

text \<open>The six patterns, all with the flags \<open>gi\<close>:
  \<open><script[^>]*>.*?<\/script>\<close>, \<open><iframe[^>]*>.*?<\/iframe>\<close>, \<open>javascript:\<close>,
  \<open>on\w+\s*=\<close>, \<open>eval\s*\(\<close>, \<open>expression\s*\(\<close>.\<close>

definition dangerousPatterns :: "regex list" where
  "dangerousPatterns =
     [Seq (lits ''<script'') (Seq (Star (Atom (NoneOf ''>''))) (Seq (Atom (Lit CHR ''>''))
        (Seq (Star (Atom Dot)) (lits ''</script>'')))),
      Seq (lits ''<iframe'') (Seq (Star (Atom (NoneOf ''>''))) (Seq (Atom (Lit CHR ''>''))
        (Seq (Star (Atom Dot)) (lits ''</iframe>'')))),
      lits ''javascript:'',
      Seq (lits ''on'') (Seq (plus (Atom Word)) (Seq (Star (Atom Space)) (Atom (Lit CHR ''='')))),
      Seq (lits ''eval'') (Seq (Star (Atom Space)) (Atom (Lit CHR ''(''))),
      Seq (lits ''expression'') (Seq (Star (Atom Space)) (Atom (Lit CHR ''('')))]"

definition containsDangerousChars :: "jstring \<Rightarrow> bool" where
  "containsDangerousChars str = (str \<noteq> [] \<and> list_ex (\<lambda>p. search True p str) dangerousPatterns)"

section \<open>Base64 (the platform's btoa and atob) and the URL-safe variant (utils/helpers.ts)\<close>

text \<open>The alphabet \<open>A-Z a-z 0-9 + /\<close>, by value and back.\<close>

definition b64_char :: "nat \<Rightarrow> char" where
  "b64_char n =
     (if n < 26 then char_of (65 + n)
      else if n < 52 then char_of (71 + n)
      else if n < 62 then char_of (n - 4)
      else if n = 62 then CHR ''+'' else CHR ''/'')"

definition b64_index :: "char \<Rightarrow> nat option" where
  "b64_index c =
     (let n = code c in
      if 65 \<le> n \<and> n \<le> 90 then Some (n - 65)
      else if 97 \<le> n \<and> n \<le> 122 then Some (n - 71)
      else if 48 \<le> n \<and> n \<le> 57 then Some (n + 4)
      else if c = CHR ''+'' then Some 62
      else if c = CHR ''/'' then Some 63
      else None)"

text \<open>\<open>btoa\<close>: three bytes make four characters; one or two bytes left over make two or
  three characters and are padded with \<open>=\<close>.\<close>

fun btoa :: "string \<Rightarrow> string" where
  "btoa [] = []"
| "btoa [a] = [b64_char (code a div 4), b64_char (code a mod 4 * 16), CHR ''='', CHR ''='']"
| "btoa [a, b] =
     [b64_char (code a div 4), b64_char (code a mod 4 * 16 + code b div 16),
      b64_char (code b mod 16 * 4), CHR ''='']"
| "btoa (a # b # c # rest) =
     [b64_char (code a div 4), b64_char (code a mod 4 * 16 + code b div 16),
      b64_char (code b mod 16 * 4 + code c div 64), b64_char (code c mod 64)] @ btoa rest"

text \<open>
  \<open>atob\<close> is the forgiving decoder of the HTML standard: ASCII whitespace is dropped; if
  the length is then a multiple of 4, one or two \<open>=\<close> at the end are dropped; a length
  that leaves remainder 1 and any character outside the alphabet raise; groups of four
  values make three bytes, and two or three values left over make one or two bytes.
\<close>

definition is_ascii_whitespace :: "char \<Rightarrow> bool" where
  "is_ascii_whitespace c \<longleftrightarrow> code c \<in> {9, 10, 12, 13, 32}"

fun decode_sextets :: "nat list \<Rightarrow> string" where
  "decode_sextets (p # q # r # s # rest) =
     [char_of (p * 4 + q div 16), char_of (q mod 16 * 16 + r div 4), char_of (r mod 4 * 64 + s)]
       @ decode_sextets rest"
| "decode_sextets [p, q, r] = [char_of (p * 4 + q div 16), char_of (q mod 16 * 16 + r div 4)]"
| "decode_sextets [p, q] = [char_of (p * 4 + q div 16)]"
| "decode_sextets _ = []"

definition strip_padding :: "string \<Rightarrow> string" where
  "strip_padding s =
     (if length s mod 4 = 0 \<and> s \<noteq> []
      then (if last s = CHR ''=''
            then (if butlast s \<noteq> [] \<and> last (butlast s) = CHR ''='' then butlast (butlast s)
                  else butlast s)
            else s)
      else s)"

fun those_index :: "string \<Rightarrow> nat list option" where
  "those_index [] = Some []"
| "those_index (c # cs) =
     (case b64_index c of
        None \<Rightarrow> None
      | Some n \<Rightarrow> (case those_index cs of None \<Rightarrow> None | Some ns \<Rightarrow> Some (n # ns)))"

definition atob :: "string \<Rightarrow> error + string" where
  "atob s =
     (let d = strip_padding (filter (\<lambda>c. \<not> is_ascii_whitespace c) s) in
      if length d mod 4 = 1 then Inl InvalidCharacterError
      else (case those_index d of
              None \<Rightarrow> Inl InvalidCharacterError
            | Some ns \<Rightarrow> Inr (decode_sextets ns)))"

text \<open>\<open>btoa(str).replace(/\+/g, '-').replace(/\//g, '_').replace(/=/g, '')\<close>\<close>

definition base64UrlEncode :: "string \<Rightarrow> string" where
  "base64UrlEncode str =
     filter (\<lambda>c. c \<noteq> CHR ''='')
       (map (\<lambda>c. if c = CHR ''/'' then CHR ''_'' else c)
         (map (\<lambda>c. if c = CHR ''+'' then CHR ''-'' else c) (btoa str)))"

text \<open>\<open>while (base64.length % 4 !== 0) base64 += '='\<close>\<close>

definition pad4 :: "string \<Rightarrow> string" where
  "pad4 s = s @ replicate ((4 - length s mod 4) mod 4) CHR ''=''"

definition base64UrlDecode :: "string \<Rightarrow> error + string" where
  "base64UrlDecode str =
     atob (pad4 (map (\<lambda>c. if c = CHR ''_'' then CHR ''/'' else c)
                   (map (\<lambda>c. if c = CHR ''-'' then CHR ''+'' else c) str)))"

section \<open>Token codec (utils/helpers.ts: signJWT, verifyJWT)\<close>

text \<open>
  JSON values as the tokens hold them: numbers (whole seconds) and strings. \<open>JStr s\<close> is a
  string whose code units are all at most 255, given by its characters; \<open>JWide w\<close> is a
  string with a code unit above 255, given by its code units; \<open>js_value\<close> makes the value
  of a string. An object is the list of its properties in insertion order; setting a
  property keeps the place of an existing key and adds a new key at the end, which is
  \<open>AList.update\<close>. The keys are 8-bit strings.
\<close>

datatype jsval = JNum int | JStr string | JWide jstring

type_synonym jsobject = "(string \<times> jsval) list"

definition js_value :: "jstring \<Rightarrow> jsval" where
  "js_value s = (if latin1 s then JStr (narrow s) else JWide s)"

text \<open>A whole number as a string (\<open>String(n)\<close>, a template literal), and the value a
  template literal shows for a property that may be missing.\<close>

definition digit_char :: "nat \<Rightarrow> char" where
  "digit_char d = ''0123456789'' ! d"

fun digits :: "nat \<Rightarrow> string" where
  "digits n = (if n < 10 then [digit_char n] else digits (n div 10) @ [digit_char (n mod 10)])"

declare digits.simps [simp del]

definition number_to_string :: "int \<Rightarrow> string" where
  "number_to_string n = (if n < 0 then ''-'' @ digits (nat (- n)) else digits (nat n))"

definition template_string :: "jsval option \<Rightarrow> jstring" where
  "template_string v =
     (case v of
        None \<Rightarrow> js ''undefined''
      | Some (JStr s) \<Rightarrow> js s
      | Some (JNum n) \<Rightarrow> js (number_to_string n)
      | Some (JWide w) \<Rightarrow> w)"

text \<open>Truthiness of a property: missing, the number 0 and the empty string are falsy.\<close>

definition truthy :: "jsval option \<Rightarrow> bool" where
  "truthy v =
     (case v of
        None \<Rightarrow> False
      | Some (JNum n) \<Rightarrow> n \<noteq> 0
      | Some (JStr s) \<Rightarrow> s \<noteq> []
      | Some (JWide w) \<Rightarrow> w \<noteq> [])"

text \<open>
  What the program calls of the platform and does not define: SHA-256 and HMAC-SHA256 of
  \<open>crypto.subtle\<close> (bytes and the message as strings with one character per byte, the
  HMAC as a function of the key block and the message), \<open>JSON.stringify\<close> (the text it
  writes for an object, when that text has no code unit above 255), \<open>JSON.parse\<close> (\<open>None\<close>
  when it raises; what it returns is taken to be an object), the conversion of a string
  to a number that \<open><\<close> and \<open>*\<close> apply (\<open>None\<close> for NaN), and \<open>String.prototype.toLowerCase\<close>.
\<close>

record platform =
  hmac_sha256 :: "string \<Rightarrow> string \<Rightarrow> string"
  sha256 :: "string \<Rightarrow> string"
  json_stringify :: "jsobject \<Rightarrow> string"
  json_parse :: "string \<Rightarrow> jsobject option"
  to_number :: "jstring \<Rightarrow> int option"
  to_lower_case :: "jstring \<Rightarrow> jstring"

text \<open>\<open>TextEncoder.encode\<close> on code units up to 255: UTF-8, one byte below 128 and two
  bytes from 128 on.\<close>

definition utf8 :: "string \<Rightarrow> string" where
  "utf8 s =
     concat (map (\<lambda>c. if code c < 128 then [c]
                        else [char_of (192 + code c div 64), char_of (128 + code c mod 64)]) s)"

text \<open>
  HMAC (RFC 2104, which \<open>crypto.subtle.sign\<close> implements) uses the key only through its
  block: the bytes of the key, replaced by their hash when they are more than the 64
  bytes of a SHA-256 block, and filled up with zero bytes to 64.
\<close>

definition key_block :: "platform \<Rightarrow> string \<Rightarrow> string" where
  "key_block P secret =
     (let keyData = utf8 secret;
          k = (if length keyData > 64 then sha256 P keyData else keyData)
      in k @ replicate (64 - length k) (CHR 0x00))"

definition hmacSign :: "platform \<Rightarrow> string \<Rightarrow> string \<Rightarrow> string" where
  "hmacSign P message secret = hmac_sha256 P (key_block P secret) message"

text \<open>constantTimeCompare: the loop ORs the XOR of the code units into \<open>result\<close>.\<close>

definition constantTimeCompare :: "string \<Rightarrow> string \<Rightarrow> bool" where
  "constantTimeCompare a b =
     (if length a \<noteq> length b then False
      else foldl (\<lambda>result (x, y). result OR (code x XOR code y)) (0::nat) (zip a b) = 0)"

text \<open>parseDuration: \<open>/^(\d+)([dhms])$/\<close>, then \<open>parseInt(match[1], 10) * multipliers[unit]\<close>.
  The product is an exact integer here; the program's numbers are doubles, which agree
  with it up to \<open>2^53\<close>.\<close>

definition parseInt10 :: "string \<Rightarrow> int" where
  "parseInt10 ds = foldl (\<lambda>n c. 10 * n + int (code c - 48)) 0 ds"

definition multiplier :: "char \<Rightarrow> int option" where
  "multiplier u =
     (if u = CHR ''s'' then Some 1 else if u = CHR ''m'' then Some 60
      else if u = CHR ''h'' then Some 3600 else if u = CHR ''d'' then Some 86400 else None)"

definition parseDuration :: "string \<Rightarrow> error + int" where
  "parseDuration duration =
     (if duration = [] then Inl (Error (''Invalid duration format: '' @ duration))
      else (case multiplier (last duration) of
              None \<Rightarrow> Inl (Error (''Invalid duration format: '' @ duration))
            | Some m \<Rightarrow>
                if butlast duration \<noteq> [] \<and> list_all (\<lambda>c. is_digit (code c)) (butlast duration)
                then Inr (parseInt10 (butlast duration) * m)
                else Inl (Error (''Invalid duration format: '' @ duration))))"

definition jwt_header :: jsobject where
  "jwt_header = [(''alg'', JStr ''HS256''), (''typ'', JStr ''JWT'')]"

text \<open>
  \<open>JSON.stringify\<close> writes the characters of a string as they are, except the quotation
  mark, the backslash, the control characters and a surrogate that has no partner, which
  it writes as escapes. \<open>raw_wide w\<close>: the string \<open>w\<close> has a code unit above 255 that is
  written as it is, alone or as one of a surrogate pair.
\<close>

definition is_high_surrogate :: "nat \<Rightarrow> bool" where
  "is_high_surrogate n \<longleftrightarrow> 55296 \<le> n \<and> n \<le> 56319"

definition is_low_surrogate :: "nat \<Rightarrow> bool" where
  "is_low_surrogate n \<longleftrightarrow> 56320 \<le> n \<and> n \<le> 57343"

fun raw_wide :: "jstring \<Rightarrow> bool" where
  "raw_wide [] = False"
| "raw_wide [c] = (c > 255 \<and> \<not> is_high_surrogate c \<and> \<not> is_low_surrogate c)"
| "raw_wide (c # d # cs) =
     (if is_high_surrogate c \<and> is_low_surrogate d then True
      else if is_high_surrogate c \<or> is_low_surrogate c then raw_wide (d # cs)
      else c > 255 \<or> raw_wide (d # cs))"

definition has_wide :: "jsobject \<Rightarrow> bool" where
  "has_wide obj = list_ex (\<lambda>(k, v). case v of JWide w \<Rightarrow> raw_wide w | _ \<Rightarrow> False) obj"

text \<open>
  \<open>base64UrlEncode(JSON.stringify(obj))\<close>: when a string of the object has a code unit
  above 255 that is written as it is, the text has that code unit and \<open>btoa\<close> raises
  InvalidCharacterError; otherwise the text is the 8-bit string \<open>json_stringify P obj\<close>.
\<close>

definition base64UrlEncode_json :: "platform \<Rightarrow> jsobject \<Rightarrow> error + string" where
  "base64UrlEncode_json P obj =
     (if has_wide obj then Inl InvalidCharacterError
      else Inr (base64UrlEncode (json_stringify P obj)))"

text \<open>signJWT; \<open>now_ms\<close> is \<open>Date.now()\<close>, an absent \<open>expiresIn\<close> is the default \<open>'7d'\<close>.\<close>

definition signJWT :: "platform \<Rightarrow> jsobject \<Rightarrow> string \<Rightarrow> string option \<Rightarrow> int \<Rightarrow> error + string" where
  "signJWT P payload secret expiresIn now_ms =
     (let now = now_ms div 1000 in
      case parseDuration (case expiresIn of None \<Rightarrow> ''7d'' | Some d \<Rightarrow> d) of
        Inl e \<Rightarrow> Inl e
      | Inr d \<Rightarrow>
          let exp = now + d;
              jwtPayload = AList.update ''exp'' (JNum exp) (AList.update ''iat'' (JNum now) payload)
          in (case base64UrlEncode_json P jwt_header of
                Inl e \<Rightarrow> Inl e
              | Inr encodedHeader \<Rightarrow>
                  (case base64UrlEncode_json P jwtPayload of
                     Inl e \<Rightarrow> Inl e
                   | Inr encodedPayload \<Rightarrow>
                       let message = encodedHeader @ ''.'' @ encodedPayload;
                           signature = hmacSign P message secret;
                           encodedSignature = base64UrlEncode signature
                       in Inr (message @ ''.'' @ encodedSignature))))"

text \<open>\<open>payload.exp && payload.exp < now\<close>: a missing \<open>exp\<close>, the number 0 and the empty
  string are falsy; a string is compared as the number it converts to.\<close>

definition expired :: "platform \<Rightarrow> jsobject \<Rightarrow> int \<Rightarrow> bool" where
  "expired P payload now =
     (case map_of payload ''exp'' of
        None \<Rightarrow> False
      | Some (JNum e) \<Rightarrow> e \<noteq> 0 \<and> e < now
      | Some (JStr s) \<Rightarrow> s \<noteq> [] \<and> (case to_number P (js s) of None \<Rightarrow> False | Some e \<Rightarrow> e < now)
      | Some (JWide w) \<Rightarrow> w \<noteq> [] \<and> (case to_number P w of None \<Rightarrow> False | Some e \<Rightarrow> e < now))"

definition verifyJWT :: "platform \<Rightarrow> string \<Rightarrow> string \<Rightarrow> int \<Rightarrow> error + jsobject" where
  "verifyJWT P token secret now_ms =
     (case split_on CHR ''.'' token of
        [encodedHeader, encodedPayload, encodedSignature] \<Rightarrow>
          let message = encodedHeader @ ''.'' @ encodedPayload;
              expectedSignature = hmacSign P message secret;
              expectedEncodedSignature = base64UrlEncode expectedSignature
          in if \<not> constantTimeCompare encodedSignature expectedEncodedSignature
             then Inl (Error ''Invalid JWT signature'')
             else (case base64UrlDecode encodedPayload of
                     Inl e \<Rightarrow> Inl e
                   | Inr text \<Rightarrow>
                       (case json_parse P text of
                          None \<Rightarrow> Inl SyntaxError
                        | Some payload \<Rightarrow>
                            if expired P payload (now_ms div 1000) then Inl (Error ''JWT expired'')
                            else Inr payload))
      | _ \<Rightarrow> Inl (Error ''Invalid JWT format''))"

text \<open>The six-bit values that \<open>btoa\<close> writes for a string, used to state what the two codecs
  do to each other.\<close>

fun sextets :: "string \<Rightarrow> nat list" where
  "sextets [] = []"
| "sextets [a] = [code a div 4, code a mod 4 * 16]"
| "sextets [a, b] = [code a div 4, code a mod 4 * 16 + code b div 16, code b mod 16 * 4]"
| "sextets (a # b # c # rest) =
     [code a div 4, code a mod 4 * 16 + code b div 16,
      code b mod 16 * 4 + code c div 64, code c mod 64] @ sextets rest"

text \<open>The two character replacements of base64UrlEncode, and those of base64UrlDecode,
  each pair as one function.\<close>

definition url_char :: "char \<Rightarrow> char" where
  "url_char c = (\<lambda>c. if c = CHR ''/'' then CHR ''_'' else c) ((\<lambda>c. if c = CHR ''+'' then CHR ''-'' else c) c)"

definition unurl_char :: "char \<Rightarrow> char" where
  "unurl_char c = (\<lambda>c. if c = CHR ''_'' then CHR ''/'' else c) ((\<lambda>c. if c = CHR ''-'' then CHR ''+'' else c) c)"

section \<open>UserRepository (db/user-repository.ts)\<close>

text \<open>A row of the \<open>users\<close> table; \<open>id\<close> is the PRIMARY KEY and \<open>email\<close> is UNIQUE. The table is
  the list of its rows. The email is the text a client sent, in lower case, so it is a
  list of code units; the id is a UUID of the server, and the hash and the salt are
  stored only after the check for hexadecimal digits, so these are 8-bit strings.\<close>

record user =
  u_id :: string
  u_email :: jstring
  u_auth_hash :: string
  u_salt :: string
  u_encrypted_nickname :: "string option"
  u_nickname_iv :: "string option"
  u_created_at :: int
  u_updated_at :: int

type_synonym users = "user list"

definition findByEmail :: "platform \<Rightarrow> users \<Rightarrow> jstring \<Rightarrow> user option" where
  "findByEmail P db email = first (filter (\<lambda>u. u_email u = to_lower_case P email) db)"

definition emailExists :: "platform \<Rightarrow> users \<Rightarrow> jstring \<Rightarrow> bool" where
  "emailExists P db email = (length (filter (\<lambda>u. u_email u = to_lower_case P email) db) > 0)"

text \<open>\<open>create\<close>: \<open>newId\<close> is the result of \<open>generateUUID()\<close>, the timestamp is
  \<open>getCurrentTimestamp()\<close>, seconds. The INSERT fails on a taken id or email.\<close>

definition create_user :: "platform \<Rightarrow> users \<Rightarrow> string \<Rightarrow> jstring \<Rightarrow> string \<Rightarrow> string \<Rightarrow> int
    \<Rightarrow> error + users \<times> user" where
  "create_user P db newId email authHash salt now_ms =
     (let row = \<lparr>u_id = newId, u_email = to_lower_case P email, u_auth_hash = authHash, u_salt = salt,
                 u_encrypted_nickname = None, u_nickname_iv = None,
                 u_created_at = now_ms div 1000, u_updated_at = now_ms div 1000\<rparr>
      in if newId \<in> set (map u_id db) \<or> to_lower_case P email \<in> set (map u_email db)
         then Inl ConstraintFailed
         else Inr (db @ [row], row))"

section \<open>AuthService (auth/auth-service.ts)\<close>

record Env =
  JWT_SECRET :: "string option"
  JWT_EXPIRES_IN :: "string option"

text \<open>The constructor refuses a missing, empty or default secret; the service it builds
  holds the secret and the configured lifetime.\<close>

record AuthService =
  svc_secret :: string
  svc_expires_in :: "string option"

definition fatal_secret :: error where
  "fatal_secret = Error ''FATAL: JWT_SECRET is not set in environment. Refusing to start for security reasons.''"

definition new_AuthService :: "Env \<Rightarrow> error + AuthService" where
  "new_AuthService env =
     (case JWT_SECRET env of
        None \<Rightarrow> Inl fatal_secret
      | Some s \<Rightarrow>
          if s = [] \<or> s = ''default-secret-change-in-production'' then Inl fatal_secret
          else Inr \<lparr>svc_secret = s, svc_expires_in = JWT_EXPIRES_IN env\<rparr>)"

text \<open>The checks that open both \<open>register\<close> and \<open>login\<close>; \<open>None\<close> when they pass. A hash or a
  salt with a code unit above 255 has a character that is no hexadecimal digit and is
  refused by its check, so the two are taken as 8-bit strings.\<close>

definition check_email :: "jstring \<Rightarrow> error option" where
  "check_email email =
     (if \<not> isValidEmail email
      then (if length email < 12 then Some EmailTooShort
            else if length email > 32 then Some EmailTooLong
            else Some EmailFormatInvalid)
      else if containsDangerousChars email then Some (Error ''Email contains invalid characters'')
      else None)"

definition check_auth_hash :: "string \<Rightarrow> error option" where
  "check_auth_hash authHash =
     (if \<not> isValidHex (js authHash) \<or> \<not> isValidLength (js authHash) 64 256
      then Some (Error ''Invalid auth_hash format'') else None)"

definition check_salt :: "string \<Rightarrow> error option" where
  "check_salt salt =
     (if \<not> isValidHex (js salt) \<or> \<not> isValidLength (js salt) 32 64
      then Some (Error ''Invalid salt format'') else None)"

text \<open>What \<open>login\<close> returns: the user's public fields and the token.\<close>

record login_result =
  res_id :: string
  res_email :: jstring
  res_encrypted_nickname :: "string option"
  res_nickname_iv :: "string option"
  res_token :: string

definition login :: "platform \<Rightarrow> AuthService \<Rightarrow> users \<Rightarrow> int \<Rightarrow> jstring \<Rightarrow> string \<Rightarrow> error + login_result" where
  "login P svc db now_ms email authHash =
     (case check_email email of
        Some e \<Rightarrow> Inl e
      | None \<Rightarrow>
     (case check_auth_hash authHash of
        Some e \<Rightarrow> Inl e
      | None \<Rightarrow>
     (case findByEmail P db email of
        None \<Rightarrow> Inl (Error ''Invalid email or password'')
      | Some user \<Rightarrow>
          if \<not> constantTimeCompare (u_auth_hash user) authHash
          then Inl (Error ''Invalid email or password'')
          else (case signJWT P [(''user_id'', JStr (u_id user)), (''email'', js_value (u_email user))]
                       (svc_secret svc) (svc_expires_in svc) now_ms of
                  Inl e \<Rightarrow> Inl e
                | Inr token \<Rightarrow>
                    Inr \<lparr>res_id = u_id user, res_email = u_email user,
                         res_encrypted_nickname = or_null (u_encrypted_nickname user),
                         res_nickname_iv = or_null (u_nickname_iv user),
                         res_token = token\<rparr>))))"

text \<open>
  \<open>register\<close> returns the table it leaves and either the error it throws or the user's
  id, email, salt and token. The row is inserted before the token is signed, so when
  signJWT throws the row is in the table all the same.
\<close>

definition register :: "platform \<Rightarrow> AuthService \<Rightarrow> users \<Rightarrow> string \<Rightarrow> int \<Rightarrow> jstring \<Rightarrow> string \<Rightarrow> string
    \<Rightarrow> users \<times> (error + string \<times> jstring \<times> string \<times> string)" where
  "register P svc db newId now_ms email authHash salt =
     (case check_email email of
        Some e \<Rightarrow> (db, Inl e)
      | None \<Rightarrow>
     (case check_auth_hash authHash of
        Some e \<Rightarrow> (db, Inl e)
      | None \<Rightarrow>
     (case check_salt salt of
        Some e \<Rightarrow> (db, Inl e)
      | None \<Rightarrow>
          if emailExists P db email then (db, Inl (Error ''Email already exists''))
          else (case create_user P db newId email authHash salt now_ms of
                  Inl e \<Rightarrow> (db, Inl e)
                | Inr (db', user) \<Rightarrow>
                    (case signJWT P [(''user_id'', JStr (u_id user)), (''email'', js_value (u_email user))]
                            (svc_secret svc) (svc_expires_in svc) now_ms of
                       Inl e \<Rightarrow> (db', Inl e)
                     | Inr token \<Rightarrow> (db', Inr (u_id user, u_email user, salt, token)))))))"

text \<open>verifyToken turns every failure of verifyJWT into one error.\<close>

definition verifyToken :: "platform \<Rightarrow> AuthService \<Rightarrow> string \<Rightarrow> int \<Rightarrow> error + jsval option \<times> jsval option" where
  "verifyToken P svc token now_ms =
     (case verifyJWT P token (svc_secret svc) now_ms of
        Inl e \<Rightarrow> Inl (Error ''Invalid or expired token'')
      | Inr payload \<Rightarrow> Inr (map_of payload ''user_id'', map_of payload ''email''))"

text \<open>
  generateSalt (helpers.ts): \<open>crypto.getRandomValues\<close> fills a buffer of \<open>length\<close> bytes;
  \<open>random i\<close> is the byte it puts at index \<open>i\<close>. Each byte becomes
  \<open>b.toString(16).padStart(2, '0')\<close>.
\<close>

definition hex_digit :: "nat \<Rightarrow> char" where
  "hex_digit d = ''0123456789abcdef'' ! d"

fun toString16 :: "nat \<Rightarrow> string" where
  "toString16 n = (if n < 16 then [hex_digit n] else toString16 (n div 16) @ [hex_digit (n mod 16)])"

declare toString16.simps [simp del]

definition padStart :: "nat \<Rightarrow> char \<Rightarrow> string \<Rightarrow> string" where
  "padStart n c s = replicate (n - length s) c @ s"

definition generateSalt :: "nat \<Rightarrow> (nat \<Rightarrow> 8 word) \<Rightarrow> string" where
  "generateSalt len random =
     concat (map (\<lambda>b. padStart 2 CHR ''0'' (toString16 (unat b))) (map random [0..<len]))"

text \<open>The client's generator (\<open>CryptoEngine.generateSalt\<close>), which makes the salt a user
  registers with: the same computation, called with the default length 32.\<close>

definition CryptoEngine_generateSalt :: "nat \<Rightarrow> (nat \<Rightarrow> 8 word) \<Rightarrow> string" where
  "CryptoEngine_generateSalt len random =
     concat (map (\<lambda>b. padStart 2 CHR ''0'' (toString16 (unat b))) (map random [0..<len]))"

text \<open>The characters of a salt as both generators write it: \<open>0-9\<close> and \<open>a-f\<close>.\<close>

definition lower_hex :: "char \<Rightarrow> bool" where
  "lower_hex c \<longleftrightarrow> is_digit (code c) \<or> (97 \<le> code c \<and> code c \<le> 102)"

definition getSalt :: "platform \<Rightarrow> users \<Rightarrow> (nat \<Rightarrow> 8 word) \<Rightarrow> jstring \<Rightarrow> string" where
  "getSalt P db random email =
     (case findByEmail P db email of
        None \<Rightarrow> generateSalt 32 random
      | Some user \<Rightarrow> u_salt user)"


section \<open>RateLimiter (auth/rate-limiter.ts)\<close>

record RateLimitState =
  failureCount :: int
  firstFailureAt :: int
  lastFailureAt :: int
  banUntil :: "int option"

text \<open>The KV namespace: a key holds a value and the time (Unix ms) at which the entry
  expires; \<open>put\<close> with \<open>expirationTtl\<close> seconds sets that time, \<open>get\<close> of a missing or
  expired key is null. The JSON text stored under a \<open>login:\<close> key is identified with the
  state it encodes.\<close>

type_synonym kv = "string \<rightharpoonup> RateLimitState \<times> int"

definition kv_get :: "kv \<Rightarrow> string \<Rightarrow> int \<Rightarrow> RateLimitState option" where
  "kv_get store key now =
     (case store key of
        None \<Rightarrow> None
      | Some (v, expiry) \<Rightarrow> if now < expiry then Some v else None)"

definition kv_put :: "kv \<Rightarrow> string \<Rightarrow> RateLimitState \<Rightarrow> int \<Rightarrow> int \<Rightarrow> kv" where
  "kv_put store key v expirationTtl now = store(key \<mapsto> (v, now + expirationTtl * 1000))"

definition kv_delete :: "kv \<Rightarrow> string \<Rightarrow> kv" where
  "kv_delete store key = store(key := None)"

definition getKey :: "string \<Rightarrow> string" where
  "getKey email = ''login:'' @ email"

text \<open>\<open>Math.ceil(x / 1000)\<close> for an integer \<open>x\<close>.\<close>

definition ceil_div1000 :: "int \<Rightarrow> int" where
  "ceil_div1000 x = - ((- x) div 1000)"

text \<open>The three shapes of checkRateLimit's result: \<open>{allowed: true}\<close>,
  \<open>{allowed: false, reason: 'ACCOUNT_BANNED', waitSeconds, banUntil}\<close> and
  \<open>{allowed: false, reason: 'TOO_FREQUENT', waitSeconds}\<close>.\<close>

datatype rate_check = Allowed | AccountBanned int int | TooFrequent int

fun allowed :: "rate_check \<Rightarrow> bool" where
  "allowed Allowed = True"
| "allowed (AccountBanned w b) = False"
| "allowed (TooFrequent w) = False"

fun reason :: "rate_check \<Rightarrow> string option" where
  "reason Allowed = None"
| "reason (AccountBanned w b) = Some ''ACCOUNT_BANNED''"
| "reason (TooFrequent w) = Some ''TOO_FREQUENT''"

fun waitSeconds :: "rate_check \<Rightarrow> int option" where
  "waitSeconds Allowed = None"
| "waitSeconds (AccountBanned w b) = Some w"
| "waitSeconds (TooFrequent w) = Some w"

text \<open>\<open>state.banUntil && now < state.banUntil\<close>: an absent or zero banUntil is falsy.\<close>

definition in_ban_period :: "RateLimitState \<Rightarrow> int \<Rightarrow> bool" where
  "in_ban_period state now =
     (case banUntil state of None \<Rightarrow> False | Some b \<Rightarrow> b \<noteq> 0 \<and> now < b)"

definition checkRateLimit :: "kv \<Rightarrow> string \<Rightarrow> int \<Rightarrow> rate_check" where
  "checkRateLimit store email now =
     (case kv_get store (getKey email) now of
        None \<Rightarrow> Allowed
      | Some state \<Rightarrow>
          if in_ban_period state now
          then AccountBanned (ceil_div1000 (the (banUntil state) - now)) (the (banUntil state))
          else if lastFailureAt state \<noteq> 0 \<and> now - lastFailureAt state < 5000
          then TooFrequent (ceil_div1000 (5000 - (now - lastFailureAt state)))
          else Allowed)"

definition recordFailure :: "kv \<Rightarrow> string \<Rightarrow> int \<Rightarrow> kv" where
  "recordFailure store email now =
     (let state =
        (case kv_get store (getKey email) now of
           None \<Rightarrow> \<lparr>failureCount = 1, firstFailureAt = now, lastFailureAt = now, banUntil = None\<rparr>
         | Some state \<Rightarrow>
             if now - firstFailureAt state > 3600000
             then \<lparr>failureCount = 1, firstFailureAt = now, lastFailureAt = now, banUntil = None\<rparr>
             else
               let state = state\<lparr>failureCount := failureCount state + 1, lastFailureAt := now\<rparr>
               in if failureCount state \<ge> 5
                  then state\<lparr>banUntil := Some (now + 7200000)\<rparr>
                  else state)
      in kv_put store (getKey email) state 10800 now)"

definition recordSuccess :: "kv \<Rightarrow> string \<Rightarrow> kv" where
  "recordSuccess store email = kv_delete store (getKey email)"

section \<open>SessionRepository (db/session-repository.ts)\<close>

text \<open>
  A row of the \<open>sessions\<close> table (\<open>Session\<close> in types.ts). Nullable TEXT columns are
  options, \<open>is_active\<close> is the INTEGER column (1 = valid, 0 = logged out), the two
  timestamps are Unix milliseconds. The table is the list of its rows in rowid order;
  \<open>id\<close> is the PRIMARY KEY, so the ids of a table are distinct.
\<close>

record session =
  sid :: string
  user_id :: string
  device_id :: string
  device_name :: "string option"
  device_type :: "string option"
  browser_name :: "string option"
  os_name :: "string option"
  ip_address :: "string option"
  location :: "string option"
  user_agent :: string
  is_active :: int
  created_at :: int
  expires_at :: int
  refresh_token :: "string option"

type_synonym sessions = "session list"

text \<open>The WHERE clause shared by findActive, countActive and revokeOldestSession:
  \<open>user_id = ? AND is_active = 1 AND expires_at > ?\<close>.\<close>

definition active_unexpired :: "string \<Rightarrow> int \<Rightarrow> session \<Rightarrow> bool" where
  "active_unexpired userId now s \<longleftrightarrow> user_id s = userId \<and> is_active s = 1 \<and> expires_at s > now"

text \<open>\<open>SELECT * ... ORDER BY created_at ASC\<close>. The statement fixes no order among rows with
  equal \<open>created_at\<close>; the model puts them in rowid order.\<close>

definition findActive :: "sessions \<Rightarrow> string \<Rightarrow> int \<Rightarrow> session list" where
  "findActive db userId now = sort_key created_at (filter (active_unexpired userId now) db)"

definition countActive :: "sessions \<Rightarrow> string \<Rightarrow> int \<Rightarrow> nat" where
  "countActive db userId now = length (filter (active_unexpired userId now) db)"

definition findById :: "sessions \<Rightarrow> string \<Rightarrow> session option" where
  "findById db sessionId = first (filter (\<lambda>s. sid s = sessionId) db)"

text \<open>
  revokeOldestSession is one statement:
  \<open>UPDATE sessions SET is_active = 0 WHERE id = (SELECT id ... ORDER BY created_at ASC LIMIT 1)
  RETURNING *\<close>. The scalar subquery is the id of the first row of findActive, or NULL
  when there is none, and \<open>id = NULL\<close> holds for no row. RETURNING yields the updated
  rows; \<open>.first()\<close> takes the first of them.
\<close>

definition set_inactive :: "session \<Rightarrow> session" where
  "set_inactive s = s\<lparr>is_active := 0\<rparr>"

definition revokeOldestSession :: "sessions \<Rightarrow> string \<Rightarrow> int \<Rightarrow> sessions \<times> session option" where
  "revokeOldestSession db userId now =
     (case first (map sid (findActive db userId now)) of
        None \<Rightarrow> (db, None)
      | Some oldest \<Rightarrow>
          (map (\<lambda>s. if sid s = oldest then set_inactive s else s) db,
           first (map set_inactive (filter (\<lambda>s. sid s = oldest) db))))"

text \<open>\<open>UPDATE sessions SET is_active = 0 WHERE id = ?\<close>\<close>

definition revoke :: "sessions \<Rightarrow> string \<Rightarrow> sessions" where
  "revoke db sessionId = map (\<lambda>s. if sid s = sessionId then set_inactive s else s) db"


text \<open>
  \<open>CreateSessionInput\<close> (types.ts): the optional fields may be undefined, \<open>is_active\<close> is
  a boolean. \<open>create\<close> binds \<open>field || null\<close> for the optional fields, so that an empty
  string is stored as NULL too, and \<open>is_active ? 1 : 0\<close>. The INSERT adds a row at the end
  of the table and fails when the primary key is taken. The table refers to \<open>users\<close> by a
  foreign key on \<open>user_id\<close>; the sessions are modelled without the table of users, so
  this check is not part of \<open>create\<close>: the user of a new session is taken to have a row
  in \<open>users\<close>.
\<close>

record CreateSessionInput =
  in_id :: string
  in_user_id :: string
  in_device_id :: string
  in_device_name :: "string option"
  in_device_type :: "string option"
  in_browser_name :: "string option"
  in_os_name :: "string option"
  in_ip_address :: "string option"
  in_location :: "string option"
  in_user_agent :: string
  in_is_active :: bool
  in_created_at :: int
  in_expires_at :: int
  in_refresh_token :: "string option"

definition session_row :: "CreateSessionInput \<Rightarrow> session" where
  "session_row i =
     \<lparr>sid = in_id i, user_id = in_user_id i, device_id = in_device_id i,
      device_name = or_null (in_device_name i), device_type = or_null (in_device_type i),
      browser_name = or_null (in_browser_name i), os_name = or_null (in_os_name i),
      ip_address = or_null (in_ip_address i), location = or_null (in_location i),
      user_agent = in_user_agent i, is_active = (if in_is_active i then 1 else 0),
      created_at = in_created_at i, expires_at = in_expires_at i,
      refresh_token = or_null (in_refresh_token i)\<rparr>"

definition create :: "sessions \<Rightarrow> CreateSessionInput \<Rightarrow> error + sessions" where
  "create db i =
     (if in_id i \<in> set (map sid db) then Inl ConstraintFailed else Inr (db @ [session_row i]))"

section \<open>Login handler: multi-device management (index.ts, POST /api/auth/login)\<close>

text \<open>
  The part of the handler that runs after \<open>authService.login\<close> has succeeded. The values
  the handler takes from the request and from the platform are gathered in one record:
  the user's id, the two results of \<open>crypto.randomUUID()\<close> that make the session id and
  the refresh token, the device values derived from the request headers, and the time.
\<close>

record login_request =
  lr_user_id :: string
  lr_session_id :: string
  lr_refresh_token :: string
  lr_device_id :: string
  lr_device_name :: string
  lr_device_type :: string
  lr_browser_name :: string
  lr_os_name :: string
  lr_ip :: string
  lr_location :: string
  lr_user_agent :: string
  lr_now :: int

definition maxDevices :: nat where
  "maxDevices = 3"

text \<open>The row the handler creates: \<open>expires_at = Date.now() + 7 * 24 * 60 * 60 * 1000\<close>,
  \<open>device_type = deviceInfo.device.type || 'desktop'\<close>.\<close>

definition login_session :: "login_request \<Rightarrow> CreateSessionInput" where
  "login_session r =
     \<lparr>in_id = lr_session_id r, in_user_id = lr_user_id r, in_device_id = lr_device_id r,
      in_device_name = Some (lr_device_name r),
      in_device_type = Some (if lr_device_type r = [] then ''desktop'' else lr_device_type r),
      in_browser_name = Some (lr_browser_name r), in_os_name = Some (lr_os_name r),
      in_ip_address = Some (lr_ip r), in_location = Some (lr_location r),
      in_user_agent = lr_user_agent r, in_is_active = True,
      in_created_at = lr_now r, in_expires_at = lr_now r + 7 * 24 * 60 * 60 * 1000,
      in_refresh_token = Some (lr_refresh_token r)\<rparr>"

text \<open>
  The handler awaits three database statements in turn: \<open>findActive\<close>, then
  \<open>revokeOldestSession\<close> when \<open>activeSessions.length >= maxDevices\<close>, then \<open>create\<close>. Each
  statement is atomic in the database; between two of them the statements of other
  requests may run. A running login is at one of these points; it remembers the count it
  read and the session it revoked.
\<close>

datatype login_pc = AtFindActive | AtRevoke | AtCreate | Done | Failed error

record login_run =
  run_request :: login_request
  run_pc :: login_pc
  run_revoked :: "session option"

definition start_login :: "login_request \<Rightarrow> login_run" where
  "start_login r = \<lparr>run_request = r, run_pc = AtFindActive, run_revoked = None\<rparr>"

definition login_step :: "sessions \<Rightarrow> login_run \<Rightarrow> sessions \<times> login_run" where
  "login_step db l =
     (let r = run_request l in
      case run_pc l of
        AtFindActive \<Rightarrow>
          (db, l\<lparr>run_pc := (if length (findActive db (lr_user_id r) (lr_now r)) \<ge> maxDevices
                              then AtRevoke else AtCreate)\<rparr>)
      | AtRevoke \<Rightarrow>
          (case revokeOldestSession db (lr_user_id r) (lr_now r) of
             (db', revoked) \<Rightarrow> (db', l\<lparr>run_pc := AtCreate, run_revoked := revoked\<rparr>))
      | AtCreate \<Rightarrow>
          (case create db (login_session r) of
             Inl e \<Rightarrow> (db, l\<lparr>run_pc := Failed e\<rparr>)
           | Inr db' \<Rightarrow> (db', l\<lparr>run_pc := Done\<rparr>))
      | Done \<Rightarrow> (db, l)
      | Failed e \<Rightarrow> (db, l))"

text \<open>A schedule names, step by step, the login that runs its next statement.\<close>

fun run_schedule :: "nat list \<Rightarrow> sessions \<times> login_run list \<Rightarrow> sessions \<times> login_run list" where
  "run_schedule [] st = st"
| "run_schedule (i # is) (db, ls) =
     (if i < length ls
      then (case login_step db (ls ! i) of (db', l') \<Rightarrow> run_schedule is (db', ls[i := l']))
      else run_schedule is (db, ls))"

definition all_complete :: "login_run list \<Rightarrow> bool" where
  "all_complete ls = list_all (\<lambda>l. run_pc l = Done) ls"

definition revoked_sessions :: "login_run list \<Rightarrow> session list" where
  "revoked_sessions ls = concat (map (\<lambda>l. case run_revoked l of None \<Rightarrow> [] | Some s \<Rightarrow> [s]) ls)"

section \<open>Refresh handler (index.ts, POST /api/auth/refresh)\<close>



section \<open>Authentication middleware (index.ts, authMiddleware)\<close>

text \<open>
  What the middleware reads of a request: the Authorization header, the User-Agent with
  the device type, browser and system that \<open>parseUserAgent\<close> finds in it, the two
  Cloudflare headers, and the display name it gives to a migrated device (a fixed label
  and the current date).
\<close>

record request =
  rq_authorization :: "string option"
  rq_user_agent :: string
  rq_device_type :: string
  rq_browser_name :: string
  rq_os_name :: string
  rq_ip :: string
  rq_country :: string
  rq_legacy_device_name :: string

text \<open>It calls \<open>next()\<close> with the user, the session id and the legacy flag set, or answers
  with a status and a code, or (the constructor of AuthService, outside the \<open>try\<close>)
  throws.\<close>

record auth_context =
  ctx_user_id :: "jsval option"
  ctx_email :: "jsval option"
  ctx_sessionId :: string
  ctx_isLegacyToken :: bool

datatype middleware_result = Next auth_context | Reject nat string | Throws error

definition startsWith :: "string \<Rightarrow> string \<Rightarrow> bool" where
  "startsWith s prefix = (take (length prefix) s = prefix)"

text \<open>
  The row made for a token without \<open>jti\<close>. In the tokens this server signs \<open>user_id\<close> is a
  string and \<open>exp\<close> a number (\<open>JWTPayload\<close> in types.ts), which the INSERT binds as TEXT and
  INTEGER; an \<open>exp\<close> that is a string is multiplied as the number it converts to, and NaN
  is refused by the column. For a payload of any other shape the model takes the
  statement to fail, and the \<open>catch\<close> answers 401. The ids of the table are 8-bit strings,
  so an id with a code unit above 255 is the id of no row.
\<close>

definition legacy_session :: "request \<Rightarrow> string \<Rightarrow> string \<Rightarrow> int \<Rightarrow> int \<Rightarrow> CreateSessionInput" where
  "legacy_session rq legacySessionId uid exp now_ms =
     \<lparr>in_id = legacySessionId, in_user_id = uid, in_device_id = ''legacy-device'',
      in_device_name = Some (rq_legacy_device_name rq),
      in_device_type = Some (if rq_device_type rq = [] then ''desktop'' else rq_device_type rq),
      in_browser_name = Some (rq_browser_name rq), in_os_name = Some (rq_os_name rq),
      in_ip_address = Some (rq_ip rq), in_location = Some (rq_country rq),
      in_user_agent = rq_user_agent rq, in_is_active = True,
      in_created_at = now_ms, in_expires_at = exp * 1000, in_refresh_token = None\<rparr>"

definition authMiddleware :: "platform \<Rightarrow> Env \<Rightarrow> sessions \<Rightarrow> int \<Rightarrow> request
    \<Rightarrow> sessions \<times> middleware_result" where
  "authMiddleware P env db now_ms rq =
     (case rq_authorization rq of
        None \<Rightarrow> (db, Reject 401 ''UNAUTHORIZED'')
      | Some authHeader \<Rightarrow>
          if authHeader = [] \<or> \<not> startsWith authHeader ''Bearer '' then (db, Reject 401 ''UNAUTHORIZED'')
          else
            let token = drop 7 authHeader in
            (case new_AuthService env of
               Inl e \<Rightarrow> (db, Throws e)
             | Inr authService \<Rightarrow>
                 (case verifyToken P authService token now_ms of
                    Inl e \<Rightarrow> (db, Reject 401 ''UNAUTHORIZED'')
                  | Inr (uid, mail) \<Rightarrow>
                      (case verifyJWT P token
                              (case or_null (JWT_SECRET env) of
                                 None \<Rightarrow> ''default-secret-change-in-production'' | Some s \<Rightarrow> s) now_ms of
                         Inl e \<Rightarrow> (db, Reject 401 ''UNAUTHORIZED'')
                       | Inr payload \<Rightarrow>
                           if \<not> truthy (map_of payload ''jti'')
                           then
                             let legacyText =
                                   js ''legacy-'' @ template_string (map_of payload ''user_id'') @ js ''-''
                                     @ template_string (map_of payload ''exp'')
                             in if \<not> latin1 legacyText then (db, Reject 401 ''UNAUTHORIZED'')
                                else
                             let legacySessionId = narrow legacyText
                             in (case findById db legacySessionId of
                                   Some session \<Rightarrow>
                                     (db, Next \<lparr>ctx_user_id = uid, ctx_email = mail,
                                                ctx_sessionId = legacySessionId, ctx_isLegacyToken = True\<rparr>)
                                 | None \<Rightarrow>
                                     (case (map_of payload ''user_id'',
                                            case map_of payload ''exp'' of
                                              Some (JNum e) \<Rightarrow> Some e
                                            | Some (JStr x) \<Rightarrow> to_number P (js x)
                                            | _ \<Rightarrow> None) of
                                        (Some (JStr u), Some e) \<Rightarrow>
                                          (case create db (legacy_session rq legacySessionId u e now_ms) of
                                             Inl err \<Rightarrow> (db, Reject 401 ''UNAUTHORIZED'')
                                           | Inr db' \<Rightarrow>
                                               (db', Next \<lparr>ctx_user_id = uid, ctx_email = mail,
                                                           ctx_sessionId = legacySessionId,
                                                           ctx_isLegacyToken = True\<rparr>))
                                      | _ \<Rightarrow> (db, Reject 401 ''UNAUTHORIZED'')))
                           else
                             let sessionText = template_string (map_of payload ''jti'') in
                             if \<not> latin1 sessionText then (db, Reject 401 ''SESSION_INVALID'')
                             else
                             let sessionId = narrow sessionText in
                             (case findById db sessionId of
                                None \<Rightarrow> (db, Reject 401 ''SESSION_INVALID'')
                              | Some session \<Rightarrow>
                                  if is_active session \<noteq> 1 \<or> expires_at session < now_ms
                                  then (db, Reject 401 ''SESSION_INVALID'')
                                  else (db, Next \<lparr>ctx_user_id = uid, ctx_email = mail,
                                                  ctx_sessionId = sessionId,
                                                  ctx_isLegacyToken = False\<rparr>))))))"
section \<open>Example data\<close>

text \<open>Concrete stores on which the operations are run in the examples that follow the
  theorems.\<close>

definition mk_session :: "string \<Rightarrow> string \<Rightarrow> int \<Rightarrow> int \<Rightarrow> int \<Rightarrow> string option \<Rightarrow> session" where
  "mk_session i u act created expires rt =
     \<lparr>sid = i, user_id = u, device_id = ''device-'' @ i, device_name = None,
      device_type = Some ''desktop'', browser_name = None, os_name = None,
      ip_address = None, location = None, user_agent = ''agent'',
      is_active = act, created_at = created, expires_at = expires, refresh_token = rt\<rparr>"

definition example_db :: sessions where
  "example_db =
     [mk_session ''s1'' ''u1'' 1 300 9000 (Some ''r1''),
      mk_session ''s2'' ''u1'' 1 100 9000 (Some ''r2''),
      mk_session ''s0'' ''u1'' 0 50 9000 (Some ''r0''),
      mk_session ''s3'' ''u2'' 1 10 9000 (Some ''r3''),
      mk_session ''s4'' ''u1'' 1 200 9000 None]"

definition example_login :: "string \<Rightarrow> int \<Rightarrow> login_request" where
  "example_login i t =
     \<lparr>lr_user_id = ''u1'', lr_session_id = ''session-'' @ i, lr_refresh_token = ''refresh-'' @ i,
      lr_device_id = ''device-'' @ i, lr_device_name = ''Chrome'', lr_device_type = [],
      lr_browser_name = ''Chrome'', lr_os_name = ''Linux'', lr_ip = ''10.0.0.1'',
      lr_location = ''DE'', lr_user_agent = ''agent'', lr_now = t\<rparr>"

definition four_logins :: "login_run list" where
  "four_logins =
     [start_login (example_login ''a'' 1000), start_login (example_login ''b'' 1001),
      start_login (example_login ''c'' 1002), start_login (example_login ''d'' 1003)]"

text \<open>
  A stand-in for the platform, to run the program on examples: a checksum followed by
  the key block in the place of HMAC-SHA256 (not a MAC), the first 32 bytes in the place
  of SHA-256 (not a hash), a printer and a parser of JSON objects whose keys and strings
  hold no quote, comma, colon or backslash, the whole numbers in decimal digits, and
  lower case for the letters below code unit 256.
\<close>

definition example_hmac :: "string \<Rightarrow> string \<Rightarrow> string" where
  "example_hmac key message = char_of (sum_list (map code message) mod 256) # key"

definition example_sha256 :: "string \<Rightarrow> string" where
  "example_sha256 bytes = take 32 bytes"

definition show_jsval :: "jsval \<Rightarrow> string" where
  "show_jsval v =
     (case v of
        JNum n \<Rightarrow> number_to_string n
      | JStr s \<Rightarrow> ''\"'' @ s @ ''\"''
      | JWide w \<Rightarrow> ''\"'' @ map (\<lambda>n. if n < 256 then char_of n else CHR ''?'') w @ ''\"'')"

fun join_with :: "char \<Rightarrow> string list \<Rightarrow> string" where
  "join_with d [] = []"
| "join_with d [x] = x"
| "join_with d (x # xs) = x @ d # join_with d xs"

definition example_stringify :: "jsobject \<Rightarrow> string" where
  "example_stringify obj =
     ''{'' @ join_with CHR '','' (map (\<lambda>(k, v). ''\"'' @ k @ ''\":'' @ show_jsval v) obj) @ ''}''"

definition unquote :: "string \<Rightarrow> string option" where
  "unquote s =
     (if length s \<ge> 2 \<and> hd s = CHR ''\"'' \<and> last s = CHR ''\"'' then Some (butlast (tl s)) else None)"

definition example_digits :: "jstring \<Rightarrow> int" where
  "example_digits ds = foldl (\<lambda>n c. 10 * n + int (c - 48)) 0 ds"

definition example_number :: "jstring \<Rightarrow> int option" where
  "example_number s =
     (if s \<noteq> [] \<and> list_all is_digit s then Some (example_digits s)
      else if length s \<ge> 2 \<and> hd s = 45 \<and> list_all is_digit (tl s) then Some (- example_digits (tl s))
      else None)"

definition example_lower :: "jstring \<Rightarrow> jstring" where
  "example_lower s =
     map (\<lambda>n. if (65 \<le> n \<and> n \<le> 90) \<or> (192 \<le> n \<and> n \<le> 222 \<and> n \<noteq> 215) then n + 32 else n) s"

definition parse_member :: "string \<Rightarrow> (string \<times> jsval) option" where
  "parse_member m =
     (case split_on CHR '':'' m of
        [k, v] \<Rightarrow>
          (case unquote k of
             None \<Rightarrow> None
           | Some key \<Rightarrow>
               (case unquote v of
                  Some s \<Rightarrow> Some (key, JStr s)
                | None \<Rightarrow> (case example_number (js v) of None \<Rightarrow> None | Some n \<Rightarrow> Some (key, JNum n))))
      | _ \<Rightarrow> None)"

fun parse_members :: "string list \<Rightarrow> jsobject option" where
  "parse_members [] = Some []"
| "parse_members (m # ms) =
     (case parse_member m of
        None \<Rightarrow> None
      | Some kv \<Rightarrow> (case parse_members ms of None \<Rightarrow> None | Some kvs \<Rightarrow> Some (kv # kvs)))"

definition example_parse :: "string \<Rightarrow> jsobject option" where
  "example_parse s =
     (if length s \<ge> 2 \<and> hd s = CHR ''{'' \<and> last s = CHR ''}''
      then (if butlast (tl s) = [] then Some [] else parse_members (split_on CHR '','' (butlast (tl s))))
      else None)"

definition example_platform :: platform where
  "example_platform =
     \<lparr>hmac_sha256 = example_hmac, sha256 = example_sha256, json_stringify = example_stringify,
      json_parse = example_parse, to_number = example_number, to_lower_case = example_lower\<rparr>"

definition example_claims :: jsobject where
  "example_claims = [(''user_id'', JStr ''u1''), (''email'', JStr ''alice@example.com''), (''jti'', JStr ''s1'')]"

text \<open>The payload and the token that signJWT makes of these claims with the secret
  \<open>secret\<close> and the lifetime \<open>15m\<close> at the time 1700000000123.\<close>

definition example_stamped :: jsobject where
  "example_stamped =
     [(''user_id'', JStr ''u1''), (''email'', JStr ''alice@example.com''), (''jti'', JStr ''s1''),
      (''iat'', JNum 1700000000), (''exp'', JNum 1700000900)]"

definition example_message :: string where
  "example_message =
     base64UrlEncode (example_stringify jwt_header) @ ''.'' @
     base64UrlEncode (example_stringify example_stamped)"

definition example_token :: string where
  "example_token =
     example_message @ ''.'' @ base64UrlEncode (hmacSign example_platform example_message ''secret'')"

text \<open>An email address with two code units above 255 (U+4F60, U+597D).\<close>

definition example_wide_email :: jstring where
  "example_wide_email = [20320, 22909] @ js ''@example.com''"

text \<open>A token signed by the stand-in platform whose payload has no \<open>exp\<close> (and no \<open>jti\<close>).\<close>

definition example_payload_no_exp :: jsobject where
  "example_payload_no_exp = [(''user_id'', JStr ''u1''), (''email'', JStr ''alice@example.com'')]"

definition example_message_no_exp :: string where
  "example_message_no_exp =
     base64UrlEncode (example_stringify jwt_header) @ ''.'' @
     base64UrlEncode (example_stringify example_payload_no_exp)"

definition example_token_no_exp :: string where
  "example_token_no_exp =
     example_message_no_exp @ ''.'' @
     base64UrlEncode (hmacSign example_platform example_message_no_exp ''secret'')"

definition example_hash :: string where
  "example_hash = ''0123456789abcdef0123456789abcdef0123456789abcdef0123456789abcdef''"

definition other_hash :: string where
  "other_hash = ''1123456789abcdef0123456789abcdef0123456789abcdef0123456789abcdef''"

definition example_service :: AuthService where
  "example_service = \<lparr>svc_secret = ''secret'', svc_expires_in = Some ''7d''\<rparr>"



definition example_users :: users where
  "example_users =
     [\<lparr>u_id = ''u1'', u_email = js ''alice@example.com'', u_auth_hash = example_hash,
       u_salt = ''00112233445566778899aabbccddeeff'', u_encrypted_nickname = None,
       u_nickname_iv = None, u_created_at = 1700000000, u_updated_at = 1700000000\<rparr>]"


text \<open>A random source that gives the byte 7 at every index.\<close>

definition example_random :: "nat \<Rightarrow> 8 word" where
  "example_random i = 7"

definition example_env :: Env where
  "example_env = \<lparr>JWT_SECRET = Some ''secret'', JWT_EXPIRES_IN = Some ''7d''\<rparr>"

definition legacy_claims :: jsobject where
  "legacy_claims = [(''user_id'', JStr ''u1''), (''email'', JStr ''alice@example.com'')]"

definition three_sessions :: sessions where
  "three_sessions =
     [mk_session ''s1'' ''u1'' 1 300 1800000000000 (Some ''r1''),
      mk_session ''s2'' ''u1'' 1 100 1800000000000 (Some ''r2''),
      mk_session ''s4'' ''u1'' 1 200 1800000000000 (Some ''r4'')]"

definition example_request :: "string \<Rightarrow> request" where
  "example_request token =
     \<lparr>rq_authorization = Some (''Bearer '' @ token), rq_user_agent = ''agent'',
      rq_device_type = [], rq_browser_name = ''Chrome'', rq_os_name = ''Linux'',
      rq_ip = ''10.0.0.1'', rq_country = ''DE'', rq_legacy_device_name = ''legacy device''\<rparr>"

section \<open>Properties of the codecs\<close>

lemma code_lt: "code c < 256"
  unfolding code_def by (metis of_char_mod_256 mod_less_divisor zero_less_numeral)

lemma char_of_code: "char_of (code c) = c"
  by (simp add: code_def)

lemma code_char_of: "n < 256 \<Longrightarrow> code (char_of n) = n"
  by (simp add: code_def)

lemma b64_index_char: "n < 64 \<Longrightarrow> b64_index (b64_char n) = Some n"
  by (auto simp: b64_index_def b64_char_def code_char_of Let_def code_def)

lemma code_b64_char:
  "n < 64 \<Longrightarrow> code (b64_char n) \<in> {65..90} \<union> {97..122} \<union> {48..57} \<union> {43, 47}"
  by (auto simp: b64_char_def code_char_of code_def)

lemma b64_char_facts:
  assumes "n < 64"
  shows "b64_char n \<noteq> CHR ''=''" "b64_char n \<noteq> CHR ''.''" "b64_char n \<noteq> CHR ''-''"
    "b64_char n \<noteq> CHR ''_''" "\<not> is_ascii_whitespace (b64_char n)"
proof -
  have c: "code (b64_char n) \<in> {65..90} \<union> {97..122} \<union> {48..57} \<union> {43, 47}"
    by (rule code_b64_char [OF assms])
  show "b64_char n \<noteq> CHR ''=''" using c by (auto simp: code_def)
  show "b64_char n \<noteq> CHR ''.''" using c by (auto simp: code_def)
  show "b64_char n \<noteq> CHR ''-''" using c by (auto simp: code_def)
  show "b64_char n \<noteq> CHR ''_''" using c by (auto simp: code_def)
  show "\<not> is_ascii_whitespace (b64_char n)" using c by (auto simp: is_ascii_whitespace_def)
qed

lemma url_facts:
  assumes "n < 64"
  shows "unurl_char (url_char (b64_char n)) = b64_char n" "url_char (b64_char n) \<noteq> CHR ''=''"
    "url_char (b64_char n) \<noteq> CHR ''.''"
  using b64_char_facts [OF assms] by (auto simp: url_char_def unurl_char_def)

lemma code_div4: "code c div 4 < 64"
  using code_lt [of c] by (simp add: div_less_iff_less_mult)

lemma code_div16: "code c div 16 < 16"
  using code_lt [of c] by (simp add: div_less_iff_less_mult)

lemma code_div64: "code c div 64 < 4"
  using code_lt [of c] by (simp add: div_less_iff_less_mult)

lemma sextet_bounds:
  "(m::nat) < 4 \<Longrightarrow> k < 16 \<Longrightarrow> m * 16 + k < 64"
  "(j::nat) < 16 \<Longrightarrow> i < 4 \<Longrightarrow> j * 4 + i < 64"
  "(m::nat) < 4 \<Longrightarrow> m * 16 < 64"
  "(j::nat) < 16 \<Longrightarrow> j * 4 < 64"
  by linarith+

lemma sextet_lt:
  "code a div 4 < 64" "code a mod 4 * 16 < 64" "code a mod 4 * 16 + code b div 16 < 64"
  "code b mod 16 * 4 < 64" "code b mod 16 * 4 + code c div 64 < 64" "code c mod 64 < 64"
proof -
  have m4: "code a mod 4 < 4" and m16: "code b mod 16 < 16" by simp_all
  show "code a div 4 < 64" by (rule code_div4)
  show "code a mod 4 * 16 < 64" by (rule sextet_bounds(3) [OF m4])
  show "code a mod 4 * 16 + code b div 16 < 64" by (rule sextet_bounds(1) [OF m4 code_div16])
  show "code b mod 16 * 4 < 64" by (rule sextet_bounds(4) [OF m16])
  show "code b mod 16 * 4 + code c div 64 < 64" by (rule sextet_bounds(2) [OF m16 code_div64])
  show "code c mod 64 < 64" by simp
qed

lemma sextets_lt: "\<forall>n \<in> set (sextets s). n < 64"
  by (induction s rule: sextets.induct) (simp_all add: sextet_lt)

lemma length_sextets_mod4: "length (sextets s) mod 4 \<noteq> 1"
proof (induction s rule: sextets.induct)
  case (4 a b c rest)
  have "Suc (Suc (Suc (Suc (length (sextets rest))))) mod 4 = length (sextets rest) mod 4"
    by presburger
  with 4 show ?case by simp
qed simp_all

lemma btoa_sextets:
  "btoa s = map b64_char (sextets s) @ replicate ((3 - length s mod 3) mod 3) CHR ''=''"
proof (induction s rule: btoa.induct)
  case 1
  show ?case by simp
next
  case (2 a)
  show ?case by (simp add: numeral_2_eq_2)
next
  case (3 a b)
  have "(3 - length [a, b] mod 3) mod 3 = Suc 0" by simp
  then show ?case by simp
next
  case (4 a b c rest)
  have "Suc (Suc (Suc (length rest))) mod 3 = length rest mod 3"
    by presburger
  with 4 show ?case by simp
qed

lemma div_mult_add: "(k::nat) < m \<Longrightarrow> (n * m + k) div m = n"
  by simp

lemma mod_mult_add: "(k::nat) < m \<Longrightarrow> (n * m + k) mod m = k"
  by simp

lemma sextet_bytes:
  "code a div 4 * 4 + (code a mod 4 * 16 + code b div 16) div 16 = code a"
  "(code a mod 4 * 16 + code b div 16) mod 16 * 16 + (code b mod 16 * 4 + code c div 64) div 4 = code b"
  "(code b mod 16 * 4 + code c div 64) mod 4 * 64 + code c mod 64 = code c"
proof -
  have h16: "code b div 16 mod 16 = code b div 16" "code b div 16 div 16 = 0"
    using code_div16 [of b] by simp_all
  have h64: "code c div 64 mod 4 = code c div 64" "code c div 64 div 4 = 0"
    using code_div64 [of c] by simp_all
  show "code a div 4 * 4 + (code a mod 4 * 16 + code b div 16) div 16 = code a"
    by (simp add: h16)
  show "(code a mod 4 * 16 + code b div 16) mod 16 * 16 + (code b mod 16 * 4 + code c div 64) div 4 = code b"
    by (simp add: h16 h64)
  show "(code b mod 16 * 4 + code c div 64) mod 4 * 64 + code c mod 64 = code c"
    by (simp add: h64)
qed

lemma sextet_bytes_end:
  "code a div 4 * 4 + code a mod 4 * 16 div 16 = code a"
  "(code a mod 4 * 16 + code b div 16) mod 16 * 16 + code b mod 16 * 4 div 4 = code b"
proof -
  have h16: "code b div 16 mod 16 = code b div 16"
    using code_div16 [of b] by simp
  show "code a div 4 * 4 + code a mod 4 * 16 div 16 = code a" by simp
  show "(code a mod 4 * 16 + code b div 16) mod 16 * 16 + code b mod 16 * 4 div 4 = code b"
    by (simp add: h16)
qed

lemma decode_sextets_append4:
  "decode_sextets ([p, q, r, s] @ rest) =
     [char_of (p * 4 + q div 16), char_of (q mod 16 * 16 + r div 4), char_of (r mod 4 * 64 + s)] @ decode_sextets rest"
  by simp

lemma decode_sextets_sextets: "decode_sextets (sextets s) = s"
proof (induction s rule: sextets.induct)
  case 1
  then show ?case by simp
next
  case (2 a)
  then show ?case
    by (simp only: sextets.simps decode_sextets.simps sextet_bytes_end char_of_code)
next
  case (3 a b)
  then show ?case
    by (simp only: sextets.simps decode_sextets.simps sextet_bytes sextet_bytes_end char_of_code)
next
  case (4 a b c rest)
  then show ?case
    by (simp only: sextets.simps decode_sextets.simps sextet_bytes char_of_code append.simps)
qed

lemma those_index_b64: "\<forall>n\<in>set ns. n < 64 \<Longrightarrow> those_index (map b64_char ns) = Some ns"
  by (induction ns) (simp_all add: b64_index_char)

lemma url_char_compose:
  "map (\<lambda>c. if c = CHR ''/'' then CHR ''_'' else c) (map (\<lambda>c. if c = CHR ''+'' then CHR ''-'' else c) s)
     = map url_char s"
  by (simp add: url_char_def)

lemma unurl_char_compose:
  "map (\<lambda>c. if c = CHR ''_'' then CHR ''/'' else c) (map (\<lambda>c. if c = CHR ''-'' then CHR ''+'' else c) s)
     = map unurl_char s"
  by (simp add: unurl_char_def)

lemma base64UrlEncode_sextets:
  "base64UrlEncode s = map (\<lambda>n. url_char (b64_char n)) (sextets s)"
proof -
  have keep: "filter (\<lambda>c. c \<noteq> CHR ''='') (map (\<lambda>n. url_char (b64_char n)) (sextets s))
      = map (\<lambda>n. url_char (b64_char n)) (sextets s)"
    using sextets_lt [of s] by (simp add: filter_id_conv url_facts)
  have pad: "filter (\<lambda>c. c \<noteq> CHR ''='') (replicate k (url_char CHR ''='')) = []" for k
    by (simp add: url_char_def)
  show ?thesis
    unfolding base64UrlEncode_def url_char_compose btoa_sextets
    by (simp add: keep pad comp_def)
qed

lemma no_dot_base64UrlEncode: "CHR ''.'' \<notin> set (base64UrlEncode s)"
proof -
  have "\<forall>n\<in>set (sextets s). url_char (b64_char n) \<noteq> CHR ''.''"
    using sextets_lt [of s] url_facts(3) by blast
  then show ?thesis
    by (auto simp: base64UrlEncode_sextets)
qed

lemma strip_padding_pad4:
  assumes "body = [] \<or> last body \<noteq> CHR ''=''" and "length body mod 4 \<noteq> 1"
  shows "strip_padding (pad4 body) = body"
proof -
  obtain m where m: "m = length body mod 4" by simp
  have "m < 4" unfolding m by simp
  moreover have "m \<noteq> 1" unfolding m by (rule assms(2))
  ultimately have "m = 0 \<or> m = 2 \<or> m = 3" by linarith
  then have "length body mod 4 = 0 \<or> length body mod 4 = 2 \<or> length body mod 4 = 3"
    unfolding m .
  then show ?thesis
  proof (elim disjE)
    assume 1: "length body mod 4 = 0"
    then have "pad4 body = body" by (simp add: pad4_def)
    with 1 assms(1) show ?thesis by (auto simp: strip_padding_def)
  next
    assume 2: "length body mod 4 = 2"
    then have p: "pad4 body = body @ [CHR ''='', CHR ''='']"
      by (simp add: pad4_def numeral_2_eq_2)
    have "length (pad4 body) mod 4 = 0"
      unfolding p using 2 by (simp add: mod_Suc)
    then show ?thesis
      unfolding p strip_padding_def by (simp add: butlast_append)
  next
    assume 3: "length body mod 4 = 3"
    then have p: "pad4 body = body @ [CHR ''='']"
      by (simp add: pad4_def)
    have l: "length (pad4 body) mod 4 = 0"
      unfolding p using 3 by (simp add: mod_Suc)
    from 3 have "body \<noteq> []" by auto
    with assms(1) have "last body \<noteq> CHR ''=''" by simp
    with l \<open>body \<noteq> []\<close> show ?thesis
      unfolding p strip_padding_def by (simp add: butlast_append)
  qed
qed

lemma base64Url_roundtrip: "base64UrlDecode (base64UrlEncode s) = Inr s"
proof -
  let ?body = "map b64_char (sextets s)"
  have lt: "\<forall>n\<in>set (sextets s). n < 64" by (rule sextets_lt)
  have un: "map unurl_char (base64UrlEncode s) = ?body"
    using lt by (simp add: base64UrlEncode_sextets url_facts)
  have last_ok: "?body = [] \<or> last ?body \<noteq> CHR ''=''"
  proof (cases "sextets s = []")
    case True
    then show ?thesis by simp
  next
    case False
    then have "last ?body = b64_char (last (sextets s))" by (simp add: last_map)
    moreover have "last (sextets s) < 64" using lt False by simp
    ultimately show ?thesis by (simp add: b64_char_facts)
  qed
  have len: "length ?body mod 4 \<noteq> 1"
    using length_sextets_mod4 [of s] by simp
  have nows: "filter (\<lambda>c. \<not> is_ascii_whitespace c) (pad4 ?body) = pad4 ?body"
  proof -
    have "\<forall>c\<in>set ?body. \<not> is_ascii_whitespace c"
      using lt b64_char_facts(5) by auto
    moreover have "\<not> is_ascii_whitespace CHR ''=''"
      by (simp add: is_ascii_whitespace_def code_def)
    ultimately show ?thesis
      by (auto simp: filter_id_conv pad4_def)
  qed
  have "atob (pad4 ?body) = Inr (decode_sextets (sextets s))"
    unfolding atob_def nows strip_padding_pad4 [OF last_ok len]
    using len by (simp add: those_index_b64 [OF lt])
  then show ?thesis
    unfolding base64UrlDecode_def unurl_char_compose un
    by (simp add: decode_sextets_sextets)
qed

lemma base64UrlEncode_inj: "base64UrlEncode a = base64UrlEncode b \<Longrightarrow> a = b"
  by (metis base64Url_roundtrip sum.inject(2))

lemma split_on_nonempty: "split_on d s \<noteq> []"
  by (induction s) (auto split: list.splits)

lemma split_on_no_sep: "d \<notin> set s \<Longrightarrow> split_on d s = [s]"
  by (induction s) auto

lemma split_on_append: "d \<notin> set a \<Longrightarrow> split_on d (a @ d # rest) = a # split_on d rest"
  by (induction a) (auto split: list.splits simp: split_on_nonempty)

lemma split_three:
  assumes "d \<notin> set a" "d \<notin> set b" "d \<notin> set c"
  shows "split_on d (a @ [d] @ b @ [d] @ c) = [a, b, c]"
  using assms by (simp add: split_on_append split_on_no_sep)

lemma or_xor_fold:
  "length a = length b \<Longrightarrow>
   foldl (\<lambda>result (x, y). result OR (code x XOR code y)) (r::nat) (zip a b) = 0 \<longleftrightarrow> r = 0 \<and> a = b"
proof (induction a b arbitrary: r rule: list_induct2)
  case Nil
  then show ?case by simp
next
  case (Cons x xs y ys)
  have x: "code x XOR code y = 0 \<longleftrightarrow> x = y"
    unfolding code_def by (metis of_char_eq_iff xor_self_eq xor.right_neutral xor.assoc)
  have o: "r OR (code x XOR code y) = 0 \<longleftrightarrow> r = 0 \<and> code x XOR code y = 0"
    by (simp add: or_eq_0_iff)
  show ?case
    by (simp add: Cons.IH o x)
qed

lemma constantTimeCompare_iff: "constantTimeCompare a b \<longleftrightarrow> a = b"
  by (cases "length a = length b") (auto simp: constantTimeCompare_def or_xor_fold)

lemma parseDuration_15m: "parseDuration ''15m'' = Inr 900"
  by (simp add: parseDuration_def multiplier_def is_digit_def parseInt10_def code_def)

lemma parseDuration_7d: "parseDuration ''7d'' = Inr 604800"
  by (simp add: parseDuration_def multiplier_def is_digit_def parseInt10_def code_def)

section \<open>Properties of code-unit strings and of the key block\<close>

lemma latin1_js: "latin1 (js s)"
  by (simp add: latin1_def js_def list_all_iff code_lt)

lemma narrow_js: "narrow (js s) = s"
  by (simp add: narrow_def js_def o_def char_of_code map_idI)

lemma js_append: "js (a @ b) = js a @ js b"
  by (simp add: js_def)

lemma length_js: "length (js s) = length s"
  by (simp add: js_def)

lemma not_raw_wide_latin1: "latin1 w \<Longrightarrow> \<not> raw_wide w"
  by (induction w rule: raw_wide.induct)
     (auto simp: latin1_def is_high_surrogate_def is_low_surrogate_def)

lemma js_value_js: "js_value (js s) = JStr s"
  by (simp add: js_value_def latin1_js narrow_js)

lemma has_wide_header: "\<not> has_wide jwt_header"
  by (simp add: has_wide_def jwt_header_def)

lemma utf8_NUL: "utf8 (s @ [CHR 0x00]) = utf8 s @ [CHR 0x00]"
  by (simp add: utf8_def code_def)

text \<open>A key of fewer than 64 bytes and the same key followed by the character NUL have
  the same key block, and so the same HMAC of every message.\<close>

lemma key_block_NUL:
  assumes "length (utf8 secret) < 64"
  shows "key_block P (secret @ [CHR 0x00]) = key_block P secret"
proof -
  have "64 - length (utf8 secret) = Suc (63 - length (utf8 secret))"
    using assms by simp
  then show ?thesis
    using assms by (simp add: key_block_def utf8_NUL Let_def)
qed

lemma hmacSign_NUL:
  "length (utf8 secret) < 64 \<Longrightarrow> hmacSign P message (secret @ [CHR 0x00]) = hmacSign P message secret"
  by (simp add: hmacSign_def key_block_NUL)

section \<open>Properties of the token codec\<close>

lemma verifyJWT_parts:
  assumes "split_on CHR ''.'' token = [h, p, sg]"
  shows "verifyJWT P token secret now =
     (if sg \<noteq> base64UrlEncode (hmacSign P (h @ ''.'' @ p) secret) then Inl (Error ''Invalid JWT signature'')
      else (case base64UrlDecode p of
              Inl e \<Rightarrow> Inl e
            | Inr txt \<Rightarrow>
                (case json_parse P txt of
                   None \<Rightarrow> Inl SyntaxError
                 | Some payload \<Rightarrow>
                     if expired P payload (now div 1000) then Inl (Error ''JWT expired'')
                     else Inr payload)))"
  by (simp add: verifyJWT_def assms Let_def constantTimeCompare_iff)

lemma verifyJWT_format:
  assumes "length (split_on CHR ''.'' token) \<noteq> 3"
  shows "verifyJWT P token secret now = Inl (Error ''Invalid JWT format'')"
proof -
  have "\<not> (\<exists>a b c. split_on CHR ''.'' token = [a, b, c])"
    using assms by auto
  then show ?thesis
    by (auto simp: verifyJWT_def split: list.splits)
qed

lemma split_token:
  "split_on CHR ''.'' ((base64UrlEncode a @ ''.'' @ base64UrlEncode b) @ ''.'' @ base64UrlEncode c)
     = [base64UrlEncode a, base64UrlEncode b, base64UrlEncode c]"
  using split_three [OF no_dot_base64UrlEncode no_dot_base64UrlEncode no_dot_base64UrlEncode, of a b c]
  by simp

lemma map_of_stamped:
  "map_of (AList.update ''exp'' e (AList.update ''iat'' i claims)) = (map_of claims)(''iat'' \<mapsto> i, ''exp'' \<mapsto> e)"
  by (simp add: update_conv')

text \<open>The token signJWT makes when the lifetime is well-formed and no string of the
  stamped payload has a code unit above 255 that is written as it is, and the error it
  throws when one has.\<close>

lemma signJWT_token:
  assumes ttl: "parseDuration (case expiresIn of None \<Rightarrow> ''7d'' | Some d \<Rightarrow> d) = Inr ttl"
    and payload: "payload = AList.update ''exp'' (JNum (now div 1000 + ttl))
                    (AList.update ''iat'' (JNum (now div 1000)) claims)"
    and message: "message = base64UrlEncode (json_stringify P jwt_header) @ ''.'' @
                    base64UrlEncode (json_stringify P payload)"
    and wide: "\<not> has_wide payload"
  shows "signJWT P claims secret expiresIn now
           = Inr (message @ ''.'' @ base64UrlEncode (hmacSign P message secret))"
  using wide
  by (simp add: signJWT_def ttl Let_def payload message base64UrlEncode_json_def has_wide_header)

lemma signJWT_wide:
  assumes ttl: "parseDuration (case expiresIn of None \<Rightarrow> ''7d'' | Some d \<Rightarrow> d) = Inr ttl"
    and wide: "has_wide (AList.update ''exp'' (JNum (now div 1000 + ttl))
                    (AList.update ''iat'' (JNum (now div 1000)) claims))"
  shows "signJWT P claims secret expiresIn now = Inl InvalidCharacterError"
  using wide
  by (simp add: signJWT_def ttl Let_def base64UrlEncode_json_def has_wide_header)

text \<open>What verifyJWT answers on that token, for any secret and time, when JSON.parse
  gives back the payload that JSON.stringify wrote.\<close>

lemma verifyJWT_signed:
  assumes message: "message = base64UrlEncode (json_stringify P jwt_header) @ ''.'' @
                    base64UrlEncode (json_stringify P payload)"
    and json: "json_parse P (json_stringify P payload) = Some payload"
  shows "verifyJWT P (message @ ''.'' @ base64UrlEncode (hmacSign P message secret)) secret' now' =
           (if hmacSign P message secret' \<noteq> hmacSign P message secret
            then Inl (Error ''Invalid JWT signature'')
            else if expired P payload (now' div 1000) then Inl (Error ''JWT expired'')
            else Inr payload)"
proof -
  let ?h = "base64UrlEncode (json_stringify P jwt_header)"
  let ?p = "base64UrlEncode (json_stringify P payload)"
  let ?sg = "base64UrlEncode (hmacSign P message secret)"
  define token where "token = message @ ''.'' @ ?sg"
  have split: "split_on CHR ''.'' token = [?h, ?p, ?sg]"
    unfolding message token_def by (rule split_token)
  have inj: "?sg \<noteq> base64UrlEncode (hmacSign P message secret') \<longleftrightarrow>
      hmacSign P message secret' \<noteq> hmacSign P message secret"
    using base64UrlEncode_inj [of "hmacSign P message secret" "hmacSign P message secret'"] by auto
  have "verifyJWT P token secret' now' =
      (if hmacSign P message secret' \<noteq> hmacSign P message secret then Inl (Error ''Invalid JWT signature'')
       else if expired P payload (now' div 1000) then Inl (Error ''JWT expired'') else Inr payload)"
    unfolding verifyJWT_parts [OF split] message [symmetric] inj
    by (simp add: base64Url_roundtrip json)
  then show ?thesis by (simp add: token_def)
qed

lemma signJWT_verifyJWT:
  assumes ttl: "parseDuration (case expiresIn of None \<Rightarrow> ''7d'' | Some d \<Rightarrow> d) = Inr ttl"
    and payload: "payload = AList.update ''exp'' (JNum (now div 1000 + ttl))
                    (AList.update ''iat'' (JNum (now div 1000)) claims)"
    and message: "message = base64UrlEncode (json_stringify P jwt_header) @ ''.'' @
                    base64UrlEncode (json_stringify P payload)"
    and json: "json_parse P (json_stringify P payload) = Some payload"
    and wide: "\<not> has_wide payload"
  shows "\<exists>token. signJWT P claims secret expiresIn now = Inr token
     \<and> (\<forall>secret' now'. verifyJWT P token secret' now' =
           (if hmacSign P message secret' \<noteq> hmacSign P message secret
            then Inl (Error ''Invalid JWT signature'')
            else if expired P payload (now' div 1000) then Inl (Error ''JWT expired'')
            else Inr payload))"
  using signJWT_token [OF ttl payload message wide, of secret] verifyJWT_signed [OF message json, of secret]
  by simp

text \<open>
  Claim C5 (as amended). Let \<open>payload\<close> be the claims with \<open>iat\<close> set to the second of
  signing and \<open>exp\<close> to 900 seconds later, let no string of it have a code unit above 255
  that JSON.stringify writes as it is (its keys are 8-bit strings), and let JSON.parse
  give back this payload from
  the text JSON.stringify writes for it (signing at a time not before 1970). Then
  signJWT with "15m" returns a token; verifyJWT with the same secret returns exactly
  \<open>payload\<close>, which holds every field of the claims with \<open>iat\<close> and \<open>exp = iat + 900\<close>, at
  every time up to the second \<open>exp\<close>; it fails with "JWT expired" at every later second,
  with "Invalid JWT signature" for every secret whose HMAC of the signed message
  differs, and with "Invalid JWT format" on every string of fewer than three
  dot-separated segments.
\<close>

theorem token_roundtrip:
  assumes json: "json_parse P (json_stringify P payload) = Some payload"
    and payload: "payload = AList.update ''exp'' (JNum (now div 1000 + 900))
                    (AList.update ''iat'' (JNum (now div 1000)) claims)"
    and message: "message = base64UrlEncode (json_stringify P jwt_header) @ ''.'' @
                    base64UrlEncode (json_stringify P payload)"
    and now: "0 \<le> now"
    and wide: "\<not> has_wide payload"
  shows "\<exists>token. signJWT P claims secret (Some ''15m'') now = Inr token
     \<and> (\<forall>now'. now' div 1000 \<le> now div 1000 + 900 \<longrightarrow> verifyJWT P token secret now' = Inr payload)
     \<and> map_of payload = (map_of claims)(''iat'' \<mapsto> JNum (now div 1000), ''exp'' \<mapsto> JNum (now div 1000 + 900))
     \<and> (\<forall>secret' now'. hmacSign P message secret' \<noteq> hmacSign P message secret \<longrightarrow>
           verifyJWT P token secret' now' = Inl (Error ''Invalid JWT signature''))
     \<and> (\<forall>now'. now' div 1000 > now div 1000 + 900 \<longrightarrow>
           verifyJWT P token secret now' = Inl (Error ''JWT expired''))
     \<and> (\<forall>t secret' now'. length (split_on CHR ''.'' t) < 3 \<longrightarrow>
           verifyJWT P t secret' now' = Inl (Error ''Invalid JWT format''))"
proof -
  have ttl: "parseDuration (case Some ''15m'' of None \<Rightarrow> ''7d'' | Some d \<Rightarrow> d) = Inr 900"
    by (simp add: parseDuration_15m)
  from signJWT_verifyJWT [OF ttl payload message json wide, of secret]
  obtain token where sign: "signJWT P claims secret (Some ''15m'') now = Inr token"
    and v: "\<And>secret' now'. verifyJWT P token secret' now' =
           (if hmacSign P message secret' \<noteq> hmacSign P message secret
            then Inl (Error ''Invalid JWT signature'')
            else if expired P payload (now' div 1000) then Inl (Error ''JWT expired'')
            else Inr payload)"
    by blast
  have exp: "map_of payload ''exp'' = Some (JNum (now div 1000 + 900))"
    by (simp add: payload update_conv')
  have pos: "now div 1000 + 900 \<noteq> 0"
    using now by (smt (verit) pos_imp_zdiv_nonneg_iff)
  have e: "expired P payload t \<longleftrightarrow> now div 1000 + 900 < t" for t
    using pos by (simp add: expired_def exp)
  have ok: "verifyJWT P token secret now' = Inr payload" if "now' div 1000 \<le> now div 1000 + 900" for now'
    using that by (simp add: v e)
  have late: "verifyJWT P token secret now' = Inl (Error ''JWT expired'')"
    if "now' div 1000 > now div 1000 + 900" for now'
    using that by (simp add: v e)
  have other: "verifyJWT P token secret' now' = Inl (Error ''Invalid JWT signature'')"
    if "hmacSign P message secret' \<noteq> hmacSign P message secret" for secret' now'
    using that by (simp add: v)
  have short: "verifyJWT P t secret' now' = Inl (Error ''Invalid JWT format'')"
    if "length (split_on CHR ''.'' t) < 3" for t secret' now'
    using that by (intro verifyJWT_format) simp
  have m: "map_of payload = (map_of claims)(''iat'' \<mapsto> JNum (now div 1000), ''exp'' \<mapsto> JNum (now div 1000 + 900))"
    unfolding payload by (rule map_of_stamped)
  from sign ok late other short m show ?thesis by blast
qed

lemma example_json_roundtrip:
  "json_parse example_platform (json_stringify example_platform example_stamped) = Some example_stamped"
  by (simp add: example_platform_def example_stringify_def example_parse_def show_jsval_def
      example_stamped_def number_to_string_def digits.simps digit_char_def parse_member_def
      unquote_def example_number_def is_digit_def example_digits_def js_def code_def)

lemma example_stamped_eq:
  "example_stamped = AList.update ''exp'' (JNum (1700000000123 div 1000 + 900))
             (AList.update ''iat'' (JNum (1700000000123 div 1000)) example_claims)"
  by (simp add: example_claims_def example_stamped_def)

lemma example_key_blocks:
  "key_block example_platform ''other'' \<noteq> key_block example_platform ''secret''"
  by (simp add: key_block_def utf8_def code_def Let_def)

text \<open>
  The claim as it was stated fails in two ways. Claims with a code unit above 255 (here
  the email \<open>example_wide_email\<close>) are not signed: \<open>btoa\<close> raises. And a different secret
  can verify: the secret followed by the character NUL has the same key block, so the
  same HMAC, and verifyJWT returns the payload.
\<close>

theorem token_roundtrip_counterexample:
  "signJWT example_platform [(''user_id'', JStr ''u2''), (''email'', js_value example_wide_email)]
       ''secret'' (Some ''15m'') 1700000000123 = Inl InvalidCharacterError
   \<and> signJWT example_platform example_claims ''secret'' (Some ''15m'') 1700000000123 = Inr example_token
   \<and> ''secret'' @ [CHR 0x00] \<noteq> ''secret''
   \<and> verifyJWT example_platform example_token (''secret'' @ [CHR 0x00]) 1700000000123 = Inr example_stamped"
proof -
  have ttl: "parseDuration (case Some ''15m'' of None \<Rightarrow> ''7d'' | Some d \<Rightarrow> d) = Inr 900"
    by (simp add: parseDuration_15m)
  have w: "has_wide (AList.update ''exp'' (JNum (1700000000123 div 1000 + 900))
             (AList.update ''iat'' (JNum (1700000000123 div 1000))
                [(''user_id'', JStr ''u2''), (''email'', js_value example_wide_email)]))"
    by (simp add: has_wide_def js_value_def example_wide_email_def latin1_def js_def
        is_high_surrogate_def is_low_surrogate_def)
  have a: "signJWT example_platform [(''user_id'', JStr ''u2''), (''email'', js_value example_wide_email)]
       ''secret'' (Some ''15m'') 1700000000123 = Inl InvalidCharacterError"
    by (rule signJWT_wide [OF ttl w])
  have nw: "\<not> has_wide example_stamped"
    by (simp add: has_wide_def example_stamped_def)
  have m: "example_message = base64UrlEncode (json_stringify example_platform jwt_header) @ ''.'' @
                    base64UrlEncode (json_stringify example_platform example_stamped)"
    by (simp add: example_message_def example_platform_def)
  have b: "signJWT example_platform example_claims ''secret'' (Some ''15m'') 1700000000123 = Inr example_token"
    unfolding example_token_def by (rule signJWT_token [OF ttl example_stamped_eq m nw])
  have k: "hmacSign example_platform example_message (''secret'' @ [CHR 0x00])
      = hmacSign example_platform example_message ''secret''"
    by (rule hmacSign_NUL) (simp add: utf8_def code_def)
  have e: "\<not> expired example_platform example_stamped (1700000000123 div 1000)"
    by (simp add: expired_def example_stamped_def)
  have c: "verifyJWT example_platform example_token (''secret'' @ [CHR 0x00]) 1700000000123 = Inr example_stamped"
    unfolding example_token_def verifyJWT_signed [OF m example_json_roundtrip] using k e by simp
  from a b c show ?thesis by simp
qed

theorem token_roundtrip_witness:
  "\<exists>token. signJWT example_platform example_claims ''secret'' (Some ''15m'') 1700000000123 = Inr token
     \<and> verifyJWT example_platform token ''secret'' 1700000000123 =
         Inr [(''user_id'', JStr ''u1''), (''email'', JStr ''alice@example.com''), (''jti'', JStr ''s1''),
              (''iat'', JNum 1700000000), (''exp'', JNum 1700000900)]
     \<and> verifyJWT example_platform token ''other'' 1700000000123 = Inl (Error ''Invalid JWT signature'')
     \<and> verifyJWT example_platform token ''secret'' 1700000901000 = Inl (Error ''JWT expired'')
     \<and> verifyJWT example_platform ''abc.def'' ''secret'' 1700000000123 = Inl (Error ''Invalid JWT format'')"
proof -
  have h: "hmacSign example_platform m ''other'' \<noteq> hmacSign example_platform m ''secret''" for m
    using example_key_blocks by (simp add: hmacSign_def example_platform_def example_hmac_def)
  have s: "length (split_on CHR ''.'' ''abc.def'') < 3"
    by simp
  have nw: "\<not> has_wide example_stamped"
    by (simp add: has_wide_def example_stamped_def)
  from token_roundtrip [OF example_json_roundtrip example_stamped_eq refl _ nw, of "''secret''"] h s
  show ?thesis
    by (auto simp del: split_on.simps simp add: example_stamped_def)
qed

text \<open>
  Claim C10. A token of three segments whose signature is the HMAC of its first two
  under the secret, and whose payload decodes and parses to an object without \<open>exp\<close>,
  is accepted by verifyJWT at every time, which returns that payload.
\<close>

theorem token_without_exp_never_expires:
  assumes "split_on CHR ''.'' token = [h, p, sg]"
    and "constantTimeCompare sg (base64UrlEncode (hmacSign P (h @ ''.'' @ p) secret))"
    and "base64UrlDecode p = Inr txt"
    and "json_parse P txt = Some payload"
    and "map_of payload ''exp'' = None"
  shows "\<forall>now. verifyJWT P token secret now = Inr payload"
  using assms(2-5)
  by (simp add: verifyJWT_parts [OF assms(1)] constantTimeCompare_iff expired_def)

theorem token_without_exp_never_expires_witness:
  "verifyJWT example_platform example_token_no_exp ''secret'' 0 = Inr example_payload_no_exp
   \<and> verifyJWT example_platform example_token_no_exp ''secret'' 4102444800000 = Inr example_payload_no_exp"
proof -
  let ?h = "base64UrlEncode (example_stringify jwt_header)"
  let ?p = "base64UrlEncode (example_stringify example_payload_no_exp)"
  let ?sg = "base64UrlEncode (hmacSign example_platform example_message_no_exp ''secret'')"
  have split: "split_on CHR ''.'' example_token_no_exp = [?h, ?p, ?sg]"
    unfolding example_token_no_exp_def example_message_no_exp_def by (rule split_token)
  have sig: "constantTimeCompare ?sg (base64UrlEncode (hmacSign example_platform (?h @ ''.'' @ ?p) ''secret''))"
    by (simp add: constantTimeCompare_iff example_message_no_exp_def)
  have dec: "base64UrlDecode ?p = Inr (example_stringify example_payload_no_exp)"
    by (rule base64Url_roundtrip)
  have json: "json_parse example_platform (example_stringify example_payload_no_exp) = Some example_payload_no_exp"
    by (simp add: example_platform_def example_stringify_def example_parse_def show_jsval_def
        example_payload_no_exp_def parse_member_def unquote_def js_def)
  have noexp: "map_of example_payload_no_exp ''exp'' = None"
    by (simp add: example_payload_no_exp_def)
  from token_without_exp_never_expires [OF split sig dec json noexp]
  show ?thesis by simp
qed

section \<open>Properties of AuthService\<close>

text \<open>The claims that \<open>login\<close> and \<open>register\<close> sign have a code unit above 255 that is
  written as it is exactly when the stored email has one.\<close>

lemma has_wide_login_claims:
  "has_wide (AList.update ''exp'' (JNum x) (AList.update ''iat'' (JNum i)
      [(''user_id'', JStr uid), (''email'', js_value e)])) = raw_wide e"
  by (simp add: has_wide_def js_value_def not_raw_wide_latin1)

lemma signJWT_login_ok:
  assumes "parseDuration (case expiresIn of None \<Rightarrow> ''7d'' | Some d \<Rightarrow> d) = Inr ttl"
    and "\<not> raw_wide e"
  shows "\<exists>token. signJWT P [(''user_id'', JStr uid), (''email'', js_value e)] secret expiresIn now = Inr token"
  using signJWT_token [OF assms(1) refl refl,
      where P = P and now = now and secret = secret
        and claims = "[(''user_id'', JStr uid), (''email'', js_value e)]"]
    assms(2)
  by (simp only: has_wide_login_claims) blast


text \<open>
  What \<open>register\<close> leaves: the table it found, or that table with one more row, which
  holds the submitted hash and salt, is found by the submitted email, and whose email,
  hash and salt have passed the checks. When \<open>register\<close> returns, the lifetime has been
  parsed and the token of this row has been signed once already.
\<close>

lemma register_row:
  assumes "register P svc db newId t0 email authHash salt = (db', out)"
  shows "db' = db \<and> (\<exists>e. out = Inl e)
     \<or> (\<exists>user. db' = db @ [user] \<and> findByEmail P db' email = Some user
          \<and> u_auth_hash user = authHash \<and> u_salt user = salt
          \<and> check_email email = None \<and> check_auth_hash authHash = None \<and> check_salt salt = None
          \<and> (case out of
                Inl e \<Rightarrow> signJWT P [(''user_id'', JStr (u_id user)), (''email'', js_value (u_email user))]
                          (svc_secret svc) (svc_expires_in svc) t0 = Inl e
              | Inr res \<Rightarrow> signJWT P [(''user_id'', JStr (u_id user)), (''email'', js_value (u_email user))]
                          (svc_secret svc) (svc_expires_in svc) t0 = Inr (snd (snd (snd res)))))"
proof (cases "check_email email = None \<and> check_auth_hash authHash = None \<and> check_salt salt = None
    \<and> \<not> emailExists P db email")
  case False
  with assms show ?thesis
    by (auto simp: register_def split: option.splits if_splits)
next
  case True
  then have ce: "check_email email = None" and ch: "check_auth_hash authHash = None"
    and cs: "check_salt salt = None" and ne: "\<not> emailExists P db email"
    by simp_all
  show ?thesis
  proof (cases "create_user P db newId email authHash salt t0")
    case (Inl e)
    with assms ce ch cs ne show ?thesis by (auto simp: register_def)
  next
    case (Inr p)
    obtain db1 user where p: "p = (db1, user)" by (cases p)
    from Inr p have db1: "db1 = db @ [user]" and em: "u_email user = to_lower_case P email"
      and ha: "u_auth_hash user = authHash" and sa: "u_salt user = salt"
      by (auto simp: create_user_def Let_def split: if_splits)
    from ne have "filter (\<lambda>u. u_email u = to_lower_case P email) db = []"
      by (simp add: emailExists_def)
    then have f: "findByEmail P db1 email = Some user"
      by (simp add: findByEmail_def db1 em)
    from assms ce ch cs ne Inr p have o: "db' = db1 \<and>
        (case out of
           Inl e \<Rightarrow> signJWT P [(''user_id'', JStr (u_id user)), (''email'', js_value (u_email user))]
                     (svc_secret svc) (svc_expires_in svc) t0 = Inl e
         | Inr res \<Rightarrow> signJWT P [(''user_id'', JStr (u_id user)), (''email'', js_value (u_email user))]
                     (svc_secret svc) (svc_expires_in svc) t0 = Inr (snd (snd (snd res))))"
      by (auto simp: register_def split: sum.splits)
    with db1 f ha sa ce ch cs show ?thesis by blast
  qed
qed



lemma valid_example_emails:
  "check_email (js ''alice@example.com'') = None" "check_email (js ''bob@example.com'') = None"
  "check_email example_wide_email = None"
  by (simp_all add: check_email_def isValidEmail_def containsDangerousChars_def dangerousPatterns_def
      search_def full_match_def plus_def seq_def alt_def is_space_def is_word_def is_digit_def
      js_def code_def ascii_lower_def example_wide_email_def)

lemma valid_example_hashes:
  "check_auth_hash example_hash = None" "check_auth_hash other_hash = None"
  by (simp_all add: check_auth_hash_def isValidHex_def isValidLength_def example_hash_def other_hash_def
      full_match_def plus_def seq_def alt_def is_hex_def is_digit_def js_def code_def)

lemma valid_example_salt: "check_salt ''00112233445566778899aabbccddeeff'' = None"
  by (simp add: check_salt_def isValidHex_def isValidLength_def
      full_match_def plus_def seq_def alt_def is_hex_def is_digit_def js_def code_def)

lemma example_lower:
  "to_lower_case example_platform (js ''alice@example.com'') = js ''alice@example.com''"
  "to_lower_case example_platform (js ''bob@example.com'') = js ''bob@example.com''"
  "to_lower_case example_platform example_wide_email = example_wide_email"
  by (simp_all add: example_platform_def example_lower_def js_def code_def example_wide_email_def)

lemma example_users_lookup:
  "findByEmail example_platform example_users (js ''alice@example.com'') = Some (hd example_users)"
  "findByEmail example_platform example_users (js ''bob@example.com'') = None"
  by (simp_all add: findByEmail_def example_users_def example_lower) (simp add: js_def code_def)

lemma example_ttl:
  "parseDuration (case svc_expires_in example_service of None \<Rightarrow> ''7d'' | Some d \<Rightarrow> d) = Inr 604800"
  by (simp add: example_service_def parseDuration_7d)

lemma example_register:
  "\<exists>token. register example_platform example_service [] ''u1'' 1700000000123 (js ''alice@example.com'')
     example_hash ''00112233445566778899aabbccddeeff''
     = (example_users, Inr (''u1'', js ''alice@example.com'', ''00112233445566778899aabbccddeeff'', token))"
proof -
  from signJWT_login_ok [OF example_ttl not_raw_wide_latin1 [OF latin1_js]]
  obtain token where t: "signJWT example_platform [(''user_id'', JStr ''u1''), (''email'', js_value (js ''alice@example.com''))]
      (svc_secret example_service) (svc_expires_in example_service) 1700000000123 = Inr token"
    by blast
  have "register example_platform example_service [] ''u1'' 1700000000123 (js ''alice@example.com'')
     example_hash ''00112233445566778899aabbccddeeff''
     = (example_users, Inr (''u1'', js ''alice@example.com'', ''00112233445566778899aabbccddeeff'', token))"
    by (simp add: register_def valid_example_emails valid_example_hashes valid_example_salt emailExists_def
        create_user_def example_lower t example_users_def Let_def)
  then show ?thesis by blast
qed


lemma nibble_cases:
  "d < 16 \<Longrightarrow> d = 0 \<or> d = 1 \<or> d = 2 \<or> d = 3 \<or> d = 4 \<or> d = 5 \<or> d = 6 \<or> d = 7 \<or> d = 8
     \<or> d = 9 \<or> d = 10 \<or> d = 11 \<or> d = 12 \<or> d = 13 \<or> d = 14 \<or> d = (15::nat)"
  by presburger

lemma code_hex_digit: "d < 16 \<Longrightarrow> code (hex_digit d) = (if d < 10 then 48 + d else 87 + d)"
  by (drule nibble_cases) (auto simp: hex_digit_def code_def)

lemma hex_digit_inj: "d < 16 \<Longrightarrow> e < 16 \<Longrightarrow> hex_digit d = hex_digit e \<Longrightarrow> d = e"
proof -
  assume d: "d < 16" and e: "e < 16" and eq: "hex_digit d = hex_digit e"
  from eq have "code (hex_digit d) = code (hex_digit e)" by simp
  then show "d = e"
    unfolding code_hex_digit [OF d] code_hex_digit [OF e] by (simp split: if_splits)
qed

lemma lower_hex_digit: "d < 16 \<Longrightarrow> lower_hex (hex_digit d)"
  by (simp add: lower_hex_def is_digit_def code_hex_digit)

lemma lower_hex_is_hex: "lower_hex c \<Longrightarrow> is_hex (code c)"
  by (auto simp: lower_hex_def is_hex_def)

lemma byte_hex:
  assumes "n < 256"
  shows "padStart 2 CHR ''0'' (toString16 n) = [hex_digit (n div 16), hex_digit (n mod 16)]"
proof (cases "n < 16")
  case True
  then show ?thesis
    by (simp add: toString16.simps [of n] padStart_def hex_digit_def)
next
  case False
  have "n div 16 < 16" using assms by (simp add: div_less_iff_less_mult)
  with False show ?thesis
    by (simp add: toString16.simps [of n] toString16.simps [of "n div 16"] padStart_def)
qed

lemma byte_hex_word:
  "padStart 2 CHR ''0'' (toString16 (unat (b :: 8 word))) = [hex_digit (unat b div 16), hex_digit (unat b mod 16)]"
proof -
  have "unat b < 2 ^ LENGTH(8)" by (rule unsigned_less)
  then have "unat b < 256" by simp
  then show ?thesis by (rule byte_hex)
qed

lemma byte_hex_inj:
  assumes "[hex_digit (unat (a :: 8 word) div 16), hex_digit (unat a mod 16)]
         = [hex_digit (unat (b :: 8 word) div 16), hex_digit (unat b mod 16)]"
  shows "a = b"
proof -
  have la: "unat a < 256" and lb: "unat b < 256"
    using unsigned_less [of a, where 'a = nat] unsigned_less [of b, where 'a = nat] by simp_all
  then have da: "unat a div 16 < 16" and db: "unat b div 16 < 16"
    by (simp_all add: div_less_iff_less_mult)
  from assms have "hex_digit (unat a div 16) = hex_digit (unat b div 16)"
    and "hex_digit (unat a mod 16) = hex_digit (unat b mod 16)" by simp_all
  then have "unat a div 16 = unat b div 16" and "unat a mod 16 = unat b mod 16"
    using da db by (auto intro: hex_digit_inj)
  then have "unat a = unat b"
    by (metis div_mult_mod_eq)
  then show ?thesis by (simp add: word_unat_eq_iff)
qed

lemma generateSalt_Suc:
  "generateSalt (Suc n) r = generateSalt n r @ [hex_digit (unat (r n) div 16), hex_digit (unat (r n) mod 16)]"
  by (simp add: generateSalt_def byte_hex_word)

lemma generateSalt_0: "generateSalt 0 r = []"
  by (simp add: generateSalt_def)

lemma length_generateSalt: "length (generateSalt n r) = 2 * n"
  by (induction n) (simp_all add: generateSalt_0 generateSalt_Suc)

lemma lower_hex_generateSalt: "list_all lower_hex (generateSalt n r)"
proof (induction n)
  case 0
  then show ?case by (simp add: generateSalt_0)
next
  case (Suc n)
  have "unat (r n) < 256" using unsigned_less [of "r n", where 'a = nat] by simp
  then have "unat (r n) div 16 < 16" by (simp add: div_less_iff_less_mult)
  with Suc show ?case
    by (simp add: generateSalt_Suc lower_hex_digit)
qed

lemma generateSalt_eq_iff:
  "generateSalt n r1 = generateSalt n r2 \<longleftrightarrow> (\<forall>i<n. r1 i = r2 i)"
proof (induction n)
  case 0
  then show ?case by (simp add: generateSalt_0)
next
  case (Suc n)
  have "generateSalt (Suc n) r1 = generateSalt (Suc n) r2
      \<longleftrightarrow> generateSalt n r1 = generateSalt n r2 \<and> r1 n = r2 n"
    unfolding generateSalt_Suc
    using byte_hex_inj [of "r1 n" "r2 n"] by (auto simp: length_generateSalt)
  with Suc show ?case
    by (auto simp: less_Suc_eq)
qed

lemma foldl_deriv_Null: "foldl (\<lambda>r c. deriv ic c r) Null s = Null"
  by (induction s) simp_all

lemma star_hex_match:
  "nullable (foldl (\<lambda>r c. deriv False c r) (Star (Atom HexDigit)) s) \<longleftrightarrow> list_all is_hex s"
  by (induction s) (simp_all add: seq_def foldl_deriv_Null)

lemma isValidHex_iff: "isValidHex s \<longleftrightarrow> s \<noteq> [] \<and> list_all is_hex s"
  by (cases s) (simp_all add: isValidHex_def full_match_def plus_def seq_def star_hex_match foldl_deriv_Null)

lemma CryptoEngine_generateSalt_eq: "CryptoEngine_generateSalt n r = generateSalt n r"
  by (simp add: CryptoEngine_generateSalt_def generateSalt_def)

text \<open>
  Claim C4 (as amended). For an email with no user, getSalt returns (the function has no
  raising branch) the string generateSalt makes of the 32 bytes the random source gives:
  64 characters, all in \<open>0-9a-f\<close>, which pass the check \<open>register\<close> applies to a salt and
  have the length and alphabet of every salt the client's generator makes for a
  registering user. Every salt that \<open>register\<close> stores has passed that same check
  (hexadecimal digits in either case, 32 to 64 characters) and is what getSalt returns
  for its email; its length and case need not be those of the decoy. The decoy is a
  function of the random bytes alone, and an injective one: two calls return the same
  string exactly when they drew the same 32 bytes.
\<close>

theorem getSalt_decoy:
  assumes "findByEmail P db email = None"
  shows "getSalt P db random email = generateSalt 32 random
     \<and> length (getSalt P db random email) = 64
     \<and> list_all lower_hex (getSalt P db random email)
     \<and> check_salt (getSalt P db random email) = None
     \<and> (\<forall>r. length (CryptoEngine_generateSalt 32 r) = length (getSalt P db random email)
             \<and> list_all lower_hex (CryptoEngine_generateSalt 32 r))
     \<and> (\<forall>svc db0 newId t email' authHash salt db1 out r.
           register P svc db0 newId t email' authHash salt = (db1, out) \<and> db1 \<noteq> db0
           \<longrightarrow> check_salt salt = None \<and> getSalt P db1 r email' = salt)
     \<and> (\<forall>random'. getSalt P db random email = getSalt P db random' email \<longleftrightarrow> (\<forall>i<32. random i = random' i))"
proof -
  have g: "getSalt P db r email = generateSalt 32 r" for r
    using assms by (simp add: getSalt_def)
  have hex: "list_all is_hex (js (generateSalt 32 random))"
    using lower_hex_generateSalt [of 32 random] by (simp add: list_all_iff lower_hex_is_hex js_def)
  have ne: "generateSalt 32 random \<noteq> []"
    using length_generateSalt [of 32 random] by auto
  have c: "check_salt (generateSalt 32 random) = None"
    using hex ne by (simp add: check_salt_def isValidHex_iff isValidLength_def length_generateSalt length_js)
       (simp add: js_def)
  have reg: "check_salt salt = None \<and> getSalt P db1 r email' = salt"
    if "register P svc db0 newId t email' authHash salt = (db1, out)" "db1 \<noteq> db0"
    for svc db0 newId t email' authHash salt db1 out r
    using register_row [OF that(1)] that(2) by (auto simp: getSalt_def)
  have rest: "getSalt P db random email = generateSalt 32 random
     \<and> length (getSalt P db random email) = 64
     \<and> list_all lower_hex (getSalt P db random email)
     \<and> check_salt (getSalt P db random email) = None
     \<and> (\<forall>r. length (CryptoEngine_generateSalt 32 r) = length (getSalt P db random email)
             \<and> list_all lower_hex (CryptoEngine_generateSalt 32 r))
     \<and> (\<forall>random'. getSalt P db random email = getSalt P db random' email \<longleftrightarrow> (\<forall>i<32. random i = random' i))"
    by (simp add: g length_generateSalt lower_hex_generateSalt c CryptoEngine_generateSalt_eq
        generateSalt_eq_iff)
  from rest reg show ?thesis by blast
qed

text \<open>
  The claim as it was stated fails on the length: \<open>register\<close> accepts a salt of 32
  characters, getSalt returns it for the registered email, and the decoy for an email
  without a user has 64 characters.
\<close>

theorem getSalt_decoy_counterexample:
  "fst (register example_platform example_service [] ''u1'' 1700000000123 (js ''alice@example.com'')
          example_hash ''00112233445566778899aabbccddeeff'') = example_users
   \<and> map_sum id fst (snd (register example_platform example_service [] ''u1'' 1700000000123
          (js ''alice@example.com'') example_hash ''00112233445566778899aabbccddeeff'')) = Inr ''u1''
   \<and> getSalt example_platform example_users example_random (js ''alice@example.com'')
        = ''00112233445566778899aabbccddeeff''
   \<and> length (getSalt example_platform example_users example_random (js ''alice@example.com'')) = 32
   \<and> findByEmail example_platform example_users (js ''bob@example.com'') = None
   \<and> length (getSalt example_platform example_users example_random (js ''bob@example.com'')) = 64"
proof -
  from example_register obtain token where
    r: "register example_platform example_service [] ''u1'' 1700000000123 (js ''alice@example.com'')
          example_hash ''00112233445566778899aabbccddeeff''
        = (example_users, Inr (''u1'', js ''alice@example.com'', ''00112233445566778899aabbccddeeff'', token))"
    by blast
  have a: "getSalt example_platform example_users example_random (js ''alice@example.com'')
        = ''00112233445566778899aabbccddeeff''"
    by (simp add: getSalt_def example_users_lookup) (simp add: example_users_def)
  have b: "length (getSalt example_platform example_users example_random (js ''bob@example.com'')) = 64"
    by (simp add: getSalt_def example_users_lookup length_generateSalt)
  from r a b example_users_lookup(2) show ?thesis by simp
qed

theorem getSalt_decoy_witness:
  "findByEmail example_platform example_users (js ''bob@example.com'') = None
   \<and> length (getSalt example_platform example_users (\<lambda>i. 7) (js ''bob@example.com'')) = 64
   \<and> check_salt (getSalt example_platform example_users (\<lambda>i. 7) (js ''bob@example.com'')) = None
   \<and> getSalt example_platform example_users (\<lambda>i. 7) (js ''bob@example.com'')
        \<noteq> getSalt example_platform example_users (\<lambda>i. 8) (js ''bob@example.com'')"
proof -
  note t = getSalt_decoy [OF example_users_lookup(2), of "\<lambda>i. 7"]
  from t have l: "length (getSalt example_platform example_users (\<lambda>i. 7) (js ''bob@example.com'')) = 64"
    and c: "check_salt (getSalt example_platform example_users (\<lambda>i. 7) (js ''bob@example.com'')) = None"
    by blast+
  from t have all: "\<forall>random'. getSalt example_platform example_users (\<lambda>i. 7) (js ''bob@example.com'')
        = getSalt example_platform example_users random' (js ''bob@example.com'')
        \<longleftrightarrow> (\<forall>i<(32::nat). (7 :: 8 word) = random' i)"
    by blast
  have "getSalt example_platform example_users (\<lambda>i. 7) (js ''bob@example.com'')
        = getSalt example_platform example_users (\<lambda>i. 8) (js ''bob@example.com'')
      \<longleftrightarrow> (\<forall>i<(32::nat). (7 :: 8 word) = 8)"
    using all [THEN spec, of "\<lambda>i. 8"] by simp
  moreover have "\<not> (\<forall>i<(32::nat). (7 :: 8 word) = 8)"
    by (simp add: exI [of _ 0])
  ultimately have d: "getSalt example_platform example_users (\<lambda>i. 7) (js ''bob@example.com'')
      \<noteq> getSalt example_platform example_users (\<lambda>i. 8) (js ''bob@example.com'')"
    by blast
  from l c d example_users_lookup(2) show ?thesis by blast
qed
section \<open>Properties of the rate limiter\<close>

lemma kv_get_put_same:
  "kv_get (kv_put store key v ttl t) key t' = (if t' < t + ttl * 1000 then Some v else None)"
  by (simp add: kv_get_def kv_put_def)

lemma recordFailure_fresh:
  assumes "kv_get store (getKey email) t = None"
  shows "recordFailure store email t =
     kv_put store (getKey email) \<lparr>failureCount = 1, firstFailureAt = t, lastFailureAt = t, banUntil = None\<rparr> 10800 t"
  using assms by (simp add: recordFailure_def)

lemma recordFailure_count:
  assumes "kv_get store (getKey email) t = Some st" and "t - firstFailureAt st \<le> 3600000"
  shows "recordFailure store email t =
     kv_put store (getKey email)
       \<lparr>failureCount = failureCount st + 1, firstFailureAt = firstFailureAt st, lastFailureAt = t,
        banUntil = (if failureCount st + 1 \<ge> 5 then Some (t + 7200000) else banUntil st)\<rparr> 10800 t"
  using assms by (cases st) (simp add: recordFailure_def Let_def)

lemma recordFailure_reset:
  assumes "kv_get store (getKey email) t = Some st" and "t - firstFailureAt st > 3600000"
  shows "recordFailure store email t =
     kv_put store (getKey email) \<lparr>failureCount = 1, firstFailureAt = t, lastFailureAt = t, banUntil = None\<rparr> 10800 t"
  using assms by (simp add: recordFailure_def)

lemma recordFailure_last:
  "\<exists>v. recordFailure store email t = kv_put store (getKey email) v 10800 t \<and> lastFailureAt v = t"
proof (cases "kv_get store (getKey email) t")
  case None
  from recordFailure_fresh [OF None] show ?thesis
    by (intro exI [of _ "\<lparr>failureCount = 1, firstFailureAt = t, lastFailureAt = t, banUntil = None\<rparr>"]) simp
next
  case (Some st)
  show ?thesis
  proof (cases "t - firstFailureAt st > 3600000")
    case True
    from recordFailure_reset [OF Some True] show ?thesis
      by (intro exI [of _ "\<lparr>failureCount = 1, firstFailureAt = t, lastFailureAt = t, banUntil = None\<rparr>"]) simp
  next
    case False
    then have "t - firstFailureAt st \<le> 3600000" by simp
    from recordFailure_count [OF Some this] show ?thesis
      by (intro exI [of _ "\<lparr>failureCount = failureCount st + 1, firstFailureAt = firstFailureAt st,
            lastFailureAt = t,
            banUntil = (if failureCount st + 1 \<ge> 5 then Some (t + 7200000) else banUntil st)\<rparr>"]) simp
  qed
qed

text \<open>One more failure inside the window of the stored state: the count grows by one, the
  window stays, and from the fifth failure on the ban is set to two hours after the
  call.\<close>

lemma recordFailure_step:
  assumes s: "s = kv_put s0 (getKey email) v 10800 t"
    and t: "t \<le> t'" "t' < t + 10800000" "t' - firstFailureAt v \<le> 3600000"
  shows "\<exists>v'. recordFailure s email t' = kv_put s (getKey email) v' 10800 t'
           \<and> failureCount v' = failureCount v + 1 \<and> firstFailureAt v' = firstFailureAt v
           \<and> (5 \<le> failureCount v + 1 \<longrightarrow> banUntil v' = Some (t' + 7200000))"
proof -
  have g: "kv_get s (getKey email) t' = Some v"
    using t by (simp add: s kv_get_put_same)
  from recordFailure_count [OF g t(3)] show ?thesis
    by (intro exI [of _ "\<lparr>failureCount = failureCount v + 1, firstFailureAt = firstFailureAt v,
          lastFailureAt = t',
          banUntil = (if failureCount v + 1 \<ge> 5 then Some (t' + 7200000) else banUntil v)\<rparr>"]) simp
qed

text \<open>Four more failures after a first one that left a count of at least one in a window
  that reaches to the last of them.\<close>

lemma four_more_failures:
  assumes s1: "s1 = kv_put store (getKey email) v1 10800 t1"
    and c1: "1 \<le> failureCount v1"
    and order: "t1 \<le> t2" "t2 \<le> t3" "t3 \<le> t4" "t4 \<le> t5"
    and window: "t5 - t1 \<le> 3600000" "t5 - firstFailureAt v1 \<le> 3600000"
  shows "\<exists>s4 v5. recordFailure (recordFailure (recordFailure (recordFailure s1 email t2) email t3) email t4) email t5
           = kv_put s4 (getKey email) v5 10800 t5 \<and> banUntil v5 = Some (t5 + 7200000)"
proof -
  from recordFailure_step [OF s1, of t2] order window
  obtain v2 where e2: "recordFailure s1 email t2 = kv_put s1 (getKey email) v2 10800 t2"
    and c2: "failureCount v2 = failureCount v1 + 1" and f2: "firstFailureAt v2 = firstFailureAt v1"
    by auto
  from recordFailure_step [OF e2, of t3] order window f2
  obtain v3 where e3: "recordFailure (recordFailure s1 email t2) email t3
        = kv_put (recordFailure s1 email t2) (getKey email) v3 10800 t3"
    and c3: "failureCount v3 = failureCount v2 + 1" and f3: "firstFailureAt v3 = firstFailureAt v1"
    by auto
  from recordFailure_step [OF e3, of t4] order window f3
  obtain v4 where e4: "recordFailure (recordFailure (recordFailure s1 email t2) email t3) email t4
        = kv_put (recordFailure (recordFailure s1 email t2) email t3) (getKey email) v4 10800 t4"
    and c4: "failureCount v4 = failureCount v3 + 1" and f4: "firstFailureAt v4 = firstFailureAt v1"
    by auto
  from recordFailure_step [OF e4, of t5] order window f4
  obtain v5 where e5: "recordFailure (recordFailure (recordFailure (recordFailure s1 email t2) email t3) email t4) email t5
        = kv_put (recordFailure (recordFailure (recordFailure s1 email t2) email t3) email t4) (getKey email) v5 10800 t5"
    and b5: "5 \<le> failureCount v4 + 1 \<longrightarrow> banUntil v5 = Some (t5 + 7200000)"
    by auto
  from c1 c2 c3 c4 have "5 \<le> failureCount v4 + 1" by simp
  with b5 e5 show ?thesis by blast
qed

text \<open>
  Claim C6 (as amended). Record five failures for an email at times \<open>t1 \<le> ... \<le> t5\<close> (Unix
  ms, not negative), the fifth no later than one hour after the first, and let no
  counting window stored for the email end between the first and the fifth of them:
  at the first call there is no stored state, or the stored window has ended (its first
  failure lies more than one hour back), or the stored window reaches to the fifth call
  (and its count is not negative). Then the stored state has banUntil = t5 + 2 hours,
  every checkRateLimit made before that time answers allowed: false with reason
  ACCOUNT_BANNED, and after one recordSuccess every checkRateLimit answers
  allowed: true.
\<close>

theorem five_failures_ban:
  assumes start: "case kv_get store (getKey email) t1 of
                    None \<Rightarrow> True
                  | Some st \<Rightarrow> 3600000 < t1 - firstFailureAt st
                       \<or> (t5 - firstFailureAt st \<le> 3600000 \<and> 0 \<le> failureCount st)"
    and order: "0 \<le> t1" "t1 \<le> t2" "t2 \<le> t3" "t3 \<le> t4" "t4 \<le> t5"
    and window: "t5 - t1 \<le> 3600000"
    and s5: "store5 = recordFailure (recordFailure (recordFailure (recordFailure
                 (recordFailure store email t1) email t2) email t3) email t4) email t5"
  shows "(\<forall>t. t < t5 + 7200000 \<longrightarrow>
            (\<exists>st. kv_get store5 (getKey email) t = Some st \<and> banUntil st = Some (t5 + 7200000))
          \<and> checkRateLimit store5 email t = AccountBanned (ceil_div1000 (t5 + 7200000 - t)) (t5 + 7200000)
          \<and> \<not> allowed (checkRateLimit store5 email t)
          \<and> reason (checkRateLimit store5 email t) = Some ''ACCOUNT_BANNED'')
       \<and> (\<forall>t. checkRateLimit (recordSuccess store5 email) email t = Allowed)"
proof -
  let ?k = "getKey email"
  let ?new = "\<lparr>failureCount = 1, firstFailureAt = t1, lastFailureAt = t1, banUntil = None\<rparr>"
  have first: "\<exists>v1. recordFailure store email t1 = kv_put store ?k v1 10800 t1
      \<and> 1 \<le> failureCount v1 \<and> t5 - firstFailureAt v1 \<le> 3600000"
  proof (cases "kv_get store ?k t1")
    case None
    from recordFailure_fresh [OF None] window show ?thesis
      by (intro exI [of _ ?new]) simp
  next
    case (Some st)
    show ?thesis
    proof (cases "3600000 < t1 - firstFailureAt st")
      case True
      from recordFailure_reset [OF Some True] window show ?thesis
        by (intro exI [of _ ?new]) simp
    next
      case False
      with start Some have w: "t5 - firstFailureAt st \<le> 3600000" and c: "0 \<le> failureCount st"
        by simp_all
      from False have "t1 - firstFailureAt st \<le> 3600000" by simp
      from recordFailure_count [OF Some this] w c show ?thesis
        by (intro exI [of _ "\<lparr>failureCount = failureCount st + 1, firstFailureAt = firstFailureAt st,
              lastFailureAt = t1,
              banUntil = (if failureCount st + 1 \<ge> 5 then Some (t1 + 7200000) else banUntil st)\<rparr>"]) simp
    qed
  qed
  then obtain v1 where e1: "recordFailure store email t1 = kv_put store ?k v1 10800 t1"
    and c1: "1 \<le> failureCount v1" and w1: "t5 - firstFailureAt v1 \<le> 3600000"
    by blast
  from four_more_failures [OF e1 c1 order(2-5) window w1]
  obtain s4 v5 where e5: "store5 = kv_put s4 ?k v5 10800 t5" and b5: "banUntil v5 = Some (t5 + 7200000)"
    unfolding s5 by blast
  have banned: "checkRateLimit store5 email t = AccountBanned (ceil_div1000 (t5 + 7200000 - t)) (t5 + 7200000)"
    and st: "\<exists>st. kv_get store5 ?k t = Some st \<and> banUntil st = Some (t5 + 7200000)"
    if "t < t5 + 7200000" for t
    using that order b5 by (simp_all add: e5 kv_get_put_same checkRateLimit_def in_ban_period_def)
  have cleared: "checkRateLimit (recordSuccess store5 email) email t = Allowed" for t
    by (simp add: recordSuccess_def kv_delete_def checkRateLimit_def kv_get_def)
  from banned st cleared show ?thesis by simp
qed

text \<open>
  The claim as it was stated fails when a stored counting window ends between the calls.
  One failure is recorded at 1000 ms; five more follow at 3600000, 3606000, 3612000,
  3618000 and 3624000 ms, all within one hour of the first of the five. The second of
  them finds the stored window more than one hour old and starts the count again, so
  the count ends at 4, no ban is set, and a checkRateLimit six seconds after the fifth
  answers allowed: true.
\<close>

theorem five_failures_ban_counterexample:
  "kv_get (recordFailure (recordFailure (recordFailure (recordFailure (recordFailure
       (recordFailure Map.empty ''alice@example.com'' 1000)
         ''alice@example.com'' 3600000) ''alice@example.com'' 3606000) ''alice@example.com'' 3612000)
         ''alice@example.com'' 3618000) ''alice@example.com'' 3624000)
       (getKey ''alice@example.com'') 3630000
     = Some \<lparr>failureCount = 4, firstFailureAt = 3606000, lastFailureAt = 3624000, banUntil = None\<rparr>
   \<and> checkRateLimit (recordFailure (recordFailure (recordFailure (recordFailure (recordFailure
       (recordFailure Map.empty ''alice@example.com'' 1000)
         ''alice@example.com'' 3600000) ''alice@example.com'' 3606000) ''alice@example.com'' 3612000)
         ''alice@example.com'' 3618000) ''alice@example.com'' 3624000)
       ''alice@example.com'' 3630000 = Allowed"
  by (simp add: recordFailure_def kv_get_def kv_put_def checkRateLimit_def in_ban_period_def Let_def)

theorem five_failures_ban_witness:
  "kv_get Map.empty (getKey ''alice@example.com'') 1000 = None
   \<and> checkRateLimit (recordFailure (recordFailure (recordFailure (recordFailure
        (recordFailure Map.empty ''alice@example.com'' 1000) ''alice@example.com'' 7000)
           ''alice@example.com'' 13000) ''alice@example.com'' 19000) ''alice@example.com'' 25000)
        ''alice@example.com'' 31000 = AccountBanned 7194 7225000
   \<and> checkRateLimit (recordSuccess (recordFailure (recordFailure (recordFailure (recordFailure
        (recordFailure Map.empty ''alice@example.com'' 1000) ''alice@example.com'' 7000)
           ''alice@example.com'' 13000) ''alice@example.com'' 19000) ''alice@example.com'' 25000)
        ''alice@example.com'') ''alice@example.com'' 31000 = Allowed
   \<and> kv_get (recordFailure Map.empty ''bob@example.com'' 1000) (getKey ''bob@example.com'') 2000
       = Some \<lparr>failureCount = 1, firstFailureAt = 1000, lastFailureAt = 1000, banUntil = None\<rparr>
   \<and> checkRateLimit (recordFailure (recordFailure (recordFailure (recordFailure (recordFailure
        (recordFailure Map.empty ''bob@example.com'' 1000) ''bob@example.com'' 2000) ''bob@example.com'' 7000)
           ''bob@example.com'' 13000) ''bob@example.com'' 19000) ''bob@example.com'' 25000)
        ''bob@example.com'' 31000 = AccountBanned 7194 7225000"
proof -
  have fresh: "kv_get Map.empty (getKey ''alice@example.com'') 1000 = None"
    by (simp add: kv_get_def)
  have stored: "kv_get (recordFailure Map.empty ''bob@example.com'' 1000) (getKey ''bob@example.com'') 2000
       = Some \<lparr>failureCount = 1, firstFailureAt = 1000, lastFailureAt = 1000, banUntil = None\<rparr>"
    by (simp add: recordFailure_def kv_get_def kv_put_def)
  from five_failures_ban [where store = Map.empty and email = "''alice@example.com''" and ?t1.0 = 1000
      and ?t2.0 = 7000 and ?t3.0 = 13000 and ?t4.0 = 19000 and ?t5.0 = 25000, OF _ _ _ _ _ _ _ refl]
  have a: "checkRateLimit (recordFailure (recordFailure (recordFailure (recordFailure
        (recordFailure Map.empty ''alice@example.com'' 1000) ''alice@example.com'' 7000)
           ''alice@example.com'' 13000) ''alice@example.com'' 19000) ''alice@example.com'' 25000)
        ''alice@example.com'' 31000 = AccountBanned 7194 7225000
   \<and> checkRateLimit (recordSuccess (recordFailure (recordFailure (recordFailure (recordFailure
        (recordFailure Map.empty ''alice@example.com'' 1000) ''alice@example.com'' 7000)
           ''alice@example.com'' 13000) ''alice@example.com'' 19000) ''alice@example.com'' 25000)
        ''alice@example.com'') ''alice@example.com'' 31000 = Allowed"
    by (simp add: fresh ceil_div1000_def)
  from five_failures_ban [where store = "recordFailure Map.empty ''bob@example.com'' 1000"
      and email = "''bob@example.com''" and ?t1.0 = 2000
      and ?t2.0 = 7000 and ?t3.0 = 13000 and ?t4.0 = 19000 and ?t5.0 = 25000, OF _ _ _ _ _ _ _ refl]
  have b: "checkRateLimit (recordFailure (recordFailure (recordFailure (recordFailure (recordFailure
        (recordFailure Map.empty ''bob@example.com'' 1000) ''bob@example.com'' 2000) ''bob@example.com'' 7000)
           ''bob@example.com'' 13000) ''bob@example.com'' 19000) ''bob@example.com'' 25000)
        ''bob@example.com'' 31000 = AccountBanned 7194 7225000"
    by (simp add: stored ceil_div1000_def)
  from a b fresh stored show ?thesis by simp
qed

text \<open>
  Claim C7. After recordFailure at a time \<open>t\<close> (Unix ms, not zero), a checkRateLimit at a
  time \<open>t'\<close> less than 5000 ms later, at which the stored state is not in a ban period,
  answers allowed: false with reason TOO_FREQUENT and a positive waitSeconds, whatever
  the number of failures recorded so far.
\<close>

theorem cooldown_after_failure:
  assumes "store' = recordFailure store email t" and "t \<noteq> 0" and "t' - t < 5000"
    and "kv_get store' (getKey email) t' = Some st" and "\<not> in_ban_period st t'"
  shows "\<exists>w. checkRateLimit store' email t' = TooFrequent w \<and> w > 0
           \<and> w = ceil_div1000 (5000 - (t' - t))
           \<and> \<not> allowed (checkRateLimit store' email t')
           \<and> reason (checkRateLimit store' email t') = Some ''TOO_FREQUENT''"
proof -
  have "\<exists>v. store' = kv_put store (getKey email) v 10800 t \<and> lastFailureAt v = t"
    unfolding assms(1) by (rule recordFailure_last)
  then obtain v where v: "store' = kv_put store (getKey email) v 10800 t" "lastFailureAt v = t"
    by blast
  with assms(3,4) have "st = v" by (simp add: kv_get_put_same split: if_splits)
  with v assms have c: "checkRateLimit store' email t' = TooFrequent (ceil_div1000 (5000 - (t' - t)))"
    by (simp add: checkRateLimit_def)
  have "ceil_div1000 (5000 - (t' - t)) > 0"
    using assms(3) unfolding ceil_div1000_def by linarith
  with c show ?thesis by simp
qed

theorem cooldown_after_failure_witness:
  "kv_get (recordFailure Map.empty ''alice@example.com'' 1000) (getKey ''alice@example.com'') 3500
     = Some \<lparr>failureCount = 1, firstFailureAt = 1000, lastFailureAt = 1000, banUntil = None\<rparr>
   \<and> \<not> in_ban_period \<lparr>failureCount = 1, firstFailureAt = 1000, lastFailureAt = 1000, banUntil = None\<rparr> 3500
   \<and> checkRateLimit (recordFailure Map.empty ''alice@example.com'' 1000) ''alice@example.com'' 3500
       = TooFrequent 3"
proof -
  have g: "kv_get (recordFailure Map.empty ''alice@example.com'' 1000) (getKey ''alice@example.com'') 3500
     = Some \<lparr>failureCount = 1, firstFailureAt = 1000, lastFailureAt = 1000, banUntil = None\<rparr>"
    by (simp add: recordFailure_def kv_get_def kv_put_def)
  have b: "\<not> in_ban_period \<lparr>failureCount = 1, firstFailureAt = 1000, lastFailureAt = 1000, banUntil = None\<rparr> 3500"
    by (simp add: in_ban_period_def)
  from cooldown_after_failure [OF refl _ _ g b]
  show ?thesis
    by (simp add: g b ceil_div1000_def)
qed

section \<open>Properties of the session store\<close>

lemma first_Some_iff: "first xs = Some x \<longleftrightarrow> (\<exists>ys. xs = x # ys)"
  by (cases xs) auto

lemma first_None_iff: "first xs = None \<longleftrightarrow> xs = []"
  by (cases xs) auto

lemma first_sort_key_least:
  assumes "first (sort_key f xs) = Some x"
  shows "x \<in> set xs \<and> (\<forall>y\<in>set xs. f x \<le> f y)"
proof -
  from assms obtain ys where ys: "sort_key f xs = x # ys"
    by (auto simp: first_Some_iff)
  have "set (x # ys) = set xs"
    using ys by (metis set_sort)
  moreover have "sorted (map f (x # ys))"
    using ys by (metis sorted_sort_key)
  ultimately show ?thesis by auto
qed

lemma filter_key_distinct:
  assumes "distinct (map f xs)" and "x \<in> set xs"
  shows "filter (\<lambda>s. f s = f x) xs = [x]"
  using assms
proof (induction xs)
  case Nil
  then show ?case by simp
next
  case (Cons a xs)
  show ?case
  proof (cases "a = x")
    case True
    with Cons.prems have "\<forall>s\<in>set xs. f s \<noteq> f x" by (auto simp: image_iff)
    then have "filter (\<lambda>s. f s = f x) xs = []" by (simp add: filter_empty_conv)
    with True show ?thesis by simp
  next
    case False
    with Cons.prems have "x \<in> set xs" and "f a \<noteq> f x" by (auto simp: image_iff)
    with Cons show ?thesis by simp
  qed
qed

lemma map_key_update_distinct:
  assumes "distinct (map f xs)" and "j < length xs"
  shows "map (\<lambda>s. if f s = f (xs ! j) then g s else s) xs = xs[j := g (xs ! j)]"
proof (rule nth_equalityI)
  show "length (map (\<lambda>s. if f s = f (xs ! j) then g s else s) xs) = length (xs[j := g (xs ! j)])"
    by simp
next
  fix i assume "i < length (map (\<lambda>s. if f s = f (xs ! j) then g s else s) xs)"
  then have i: "i < length xs" by simp
  have "f (xs ! i) = f (xs ! j) \<longleftrightarrow> i = j"
    using assms i by (metis distinct_conv_nth length_map nth_map)
  then show "map (\<lambda>s. if f s = f (xs ! j) then g s else s) xs ! i = xs[j := g (xs ! j)] ! i"
    using i by (auto simp: nth_list_update)
qed

text \<open>
  Claim C1. On a table with distinct ids, one call of revokeOldestSession either finds no
  active, unexpired session of the user, returns null and leaves the table as it is; or it
  picks a row \<open>j\<close> that is an active, unexpired session of that user whose created_at
  is least among them, returns that row (as RETURNING gives it, with is_active = 0), and
  the new table is the old one with row \<open>j\<close> alone replaced by its deactivated copy.
\<close>

theorem revokeOldestSession_spec:
  assumes "distinct (map sid db)"
  shows "case revokeOldestSession db userId now of
           (db', None) \<Rightarrow> db' = db \<and> (\<forall>s\<in>set db. \<not> active_unexpired userId now s)
         | (db', Some r) \<Rightarrow>
             (\<exists>j<length db. active_unexpired userId now (db ! j)
                \<and> (\<forall>t\<in>set db. active_unexpired userId now t \<longrightarrow> created_at (db ! j) \<le> created_at t)
                \<and> r = (db ! j)\<lparr>is_active := 0\<rparr>
                \<and> db' = db[j := (db ! j)\<lparr>is_active := 0\<rparr>])"
proof (cases "first (map sid (findActive db userId now))")
  case None
  then have "findActive db userId now = []"
    by (simp add: first_None_iff)
  then have "filter (active_unexpired userId now) db = []"
    unfolding findActive_def by (metis sort_key_simps(1) length_sort length_0_conv)
  then have "\<forall>s\<in>set db. \<not> active_unexpired userId now s"
    by (simp add: filter_empty_conv)
  with None show ?thesis
    by (simp add: revokeOldestSession_def)
next
  case (Some oldest)
  then obtain x where x: "first (findActive db userId now) = Some x" and o: "oldest = sid x"
    by (cases "findActive db userId now") auto
  from first_sort_key_least [OF x [unfolded findActive_def]]
  have xin: "x \<in> set db" and xa: "active_unexpired userId now x"
    and least: "\<forall>t\<in>set db. active_unexpired userId now t \<longrightarrow> created_at x \<le> created_at t"
    by auto
  from xin obtain j where j: "j < length db" and xj: "db ! j = x"
    by (auto simp: in_set_conv_nth)
  have f: "filter (\<lambda>s. sid s = sid x) db = [x]"
    by (rule filter_key_distinct [OF assms xin])
  have m: "map (\<lambda>s. if sid s = sid x then set_inactive s else s) db = db[j := set_inactive x]"
    using map_key_update_distinct [OF assms j, of set_inactive] xj by simp
  have "revokeOldestSession db userId now = (db[j := set_inactive x], Some (set_inactive x))"
    using Some o f m by (simp add: revokeOldestSession_def)
  with j xj xa least show ?thesis
    by (auto simp: set_inactive_def)
qed

theorem revokeOldestSession_spec_witness:
  "distinct (map sid example_db)
   \<and> revokeOldestSession example_db ''u1'' 1000 =
       (example_db[1 := (example_db ! 1)\<lparr>is_active := 0\<rparr>], Some ((example_db ! 1)\<lparr>is_active := 0\<rparr>))
   \<and> sid (example_db ! 1) = ''s2''
   \<and> revokeOldestSession example_db ''u9'' 1000 = (example_db, None)"
proof -
  have d: "distinct (map sid example_db)"
    by (simp add: example_db_def mk_session_def)
  from revokeOldestSession_spec [OF d, of "''u1''" 1000] revokeOldestSession_spec [OF d, of "''u9''" 1000]
  show ?thesis
    by (simp add: d example_db_def mk_session_def revokeOldestSession_def findActive_def
        active_unexpired_def set_inactive_def)
qed

section \<open>Properties of the login handler's device limit\<close>

text \<open>
  Claim C2 (the code departs from it). Four logins of one user who has no session yet
  run concurrently; the schedule lets each of them run \<open>findActive\<close> before any of them
  runs \<open>create\<close>. Every login reads fewer than three active sessions, none of them
  revokes anything, and after all four have completed the user has four active
  sessions, not three, and no session was revoked, not one.
\<close>

theorem concurrent_logins_exceed_limit:
  "all_complete (snd (run_schedule [0, 1, 2, 3, 0, 1, 2, 3] ([], four_logins)))
   \<and> length (findActive (fst (run_schedule [0, 1, 2, 3, 0, 1, 2, 3] ([], four_logins))) ''u1'' 2000) = 4
   \<and> revoked_sessions (snd (run_schedule [0, 1, 2, 3, 0, 1, 2, 3] ([], four_logins))) = []"
  by (simp add: four_logins_def start_login_def example_login_def login_step_def login_session_def
      findActive_def active_unexpired_def maxDevices_def create_def session_row_def or_null_def
      all_complete_def revoked_sessions_def Let_def)

text \<open>The same four logins run one after the other keep the limit: the fourth finds
  three active sessions and revokes the oldest.\<close>

lemma sequential_logins_keep_limit:
  "all_complete (snd (run_schedule [0, 0, 1, 1, 2, 2, 3, 3, 3] ([], four_logins)))
   \<and> map sid (findActive (fst (run_schedule [0, 0, 1, 1, 2, 2, 3, 3, 3] ([], four_logins))) ''u1'' 2000)
       = [''session-b'', ''session-c'', ''session-d'']
   \<and> map sid (revoked_sessions (snd (run_schedule [0, 0, 1, 1, 2, 2, 3, 3, 3] ([], four_logins))))
       = [''session-a'']"
  by (simp add: four_logins_def start_login_def example_login_def login_step_def login_session_def
      findActive_def active_unexpired_def maxDevices_def create_def session_row_def or_null_def
      all_complete_def revoked_sessions_def revokeOldestSession_def set_inactive_def Let_def)

section \<open>Properties of the refresh handler\<close>





section \<open>Properties of the authentication middleware\<close>

lemma length_findActive: "length (findActive db u now) = length (filter (active_unexpired u now) db)"
  by (simp add: findActive_def)

lemma findById_None: "findById db i = None \<longleftrightarrow> i \<notin> set (map sid db)"
  by (auto simp: findById_def first_None_iff filter_empty_conv)

lemma new_AuthService_secret:
  assumes "new_AuthService env = Inr svc"
  shows "JWT_SECRET env = Some (svc_secret svc) \<and> svc_secret svc \<noteq> []"
  using assms by (auto simp: new_AuthService_def split: option.splits if_splits)

text \<open>
  Claim C9. Let the service start (a secret is configured), and let the request carry a
  token that verifyJWT accepts, whose payload has no \<open>jti\<close>, the user id \<open>u\<close> and an \<open>exp\<close>
  that lies after the current time, and for which no row with the legacy id exists yet.
  If the user has three active sessions, the middleware lets the request pass as a
  legacy token and leaves a table with one more row, in which the user has four active
  sessions: the device limit is neither read nor enforced on this path.
\<close>

theorem legacy_token_exceeds_device_limit:
  assumes env: "new_AuthService env = Inr svc"
    and hdr: "rq_authorization rq = Some (''Bearer '' @ token)"
    and ver: "verifyJWT P token (svc_secret svc) now = Inr payload"
    and nojti: "map_of payload ''jti'' = None"
    and uid: "map_of payload ''user_id'' = Some (JStr u)"
    and exp: "map_of payload ''exp'' = Some (JNum e)"
    and later: "e * 1000 > now"
    and fresh: "findById db (''legacy-'' @ u @ ''-'' @ number_to_string e) = None"
    and three: "length (findActive db u now) = 3"
  shows "\<exists>db' ctx. authMiddleware P env db now rq = (db', Next ctx)
           \<and> ctx_isLegacyToken ctx
           \<and> ctx_sessionId ctx = ''legacy-'' @ u @ ''-'' @ number_to_string e
           \<and> db' = db @ [session_row (legacy_session rq (ctx_sessionId ctx) u e now)]
           \<and> length (findActive db' u now) = 4"
proof -
  let ?id = "''legacy-'' @ u @ ''-'' @ number_to_string e"
  let ?row = "session_row (legacy_session rq ?id u e now)"
  from new_AuthService_secret [OF env]
  have sec: "or_null (JWT_SECRET env) = Some (svc_secret svc)"
    by (simp add: or_null_def)
  have bearer: "startsWith (''Bearer '' @ token) ''Bearer ''" "drop 7 (''Bearer '' @ token) = token"
    by (simp_all add: startsWith_def)
  have vt: "verifyToken P svc token now = Inr (map_of payload ''user_id'', map_of payload ''email'')"
    by (simp add: verifyToken_def ver)
  have tid: "js ''legacy-'' @ template_string (Some (JStr u)) @ js ''-'' @ template_string (Some (JNum e)) = js ?id"
    by (simp add: template_string_def js_def)
  have cr: "create db (legacy_session rq ?id u e now) = Inr (db @ [?row])"
    using fresh by (simp add: create_def findById_None legacy_session_def)
  have act: "active_unexpired u now ?row"
    using later by (simp add: active_unexpired_def session_row_def legacy_session_def)
  have four: "length (findActive (db @ [?row]) u now) = 4"
    using three act by (simp add: length_findActive)
  have "authMiddleware P env db now rq =
      (db @ [?row], Next \<lparr>ctx_user_id = map_of payload ''user_id'', ctx_email = map_of payload ''email'',
                          ctx_sessionId = ?id, ctx_isLegacyToken = True\<rparr>)"
    unfolding authMiddleware_def hdr
    by (simp only: option.case bearer Let_def env sec sum.case vt prod.case ver nojti truthy_def
        uid exp tid latin1_js narrow_js fresh cr jsval.case not_False_eq_True if_True if_False simp_thms
        list.simps append_is_Nil_conv)
  with four show ?thesis by simp
qed

theorem legacy_token_exceeds_device_limit_witness:
  "length (findActive three_sessions ''u1'' 1700000000123) = 3
   \<and> (\<exists>token db' ctx.
         signJWT example_platform legacy_claims ''secret'' (Some ''7d'') 1700000000123 = Inr token
       \<and> authMiddleware example_platform example_env three_sessions 1700000000123 (example_request token)
           = (db', Next ctx)
       \<and> ctx_sessionId ctx = ''legacy-u1-1700604800''
       \<and> length (findActive db' ''u1'' 1700000000123) = 4)"
proof -
  let ?payload = "[(''user_id'', JStr ''u1''), (''email'', JStr ''alice@example.com''),
      (''iat'', JNum 1700000000), (''exp'', JNum 1700604800)]"
  have ttl: "parseDuration (case Some ''7d'' of None \<Rightarrow> ''7d'' | Some d \<Rightarrow> d) = Inr 604800"
    by (simp add: parseDuration_7d)
  have p: "?payload = AList.update ''exp'' (JNum (1700000000123 div 1000 + 604800))
             (AList.update ''iat'' (JNum (1700000000123 div 1000)) legacy_claims)"
    by (simp add: legacy_claims_def)
  have j: "json_parse example_platform (json_stringify example_platform ?payload) = Some ?payload"
    by (simp add: example_platform_def example_stringify_def example_parse_def show_jsval_def
        number_to_string_def digits.simps digit_char_def parse_member_def unquote_def
        example_number_def is_digit_def example_digits_def js_def code_def)
  have w: "\<not> has_wide ?payload"
    by (simp add: has_wide_def)
  from signJWT_verifyJWT [OF ttl p refl j w, of "''secret''"]
  obtain token where sign: "signJWT example_platform legacy_claims ''secret'' (Some ''7d'') 1700000000123 = Inr token"
    and v: "verifyJWT example_platform token ''secret'' 1700000000123 =
        (if expired example_platform ?payload (1700000000123 div 1000) then Inl (Error ''JWT expired'')
         else Inr ?payload)"
    by auto
  have ver: "verifyJWT example_platform token (svc_secret example_service) 1700000000123 = Inr ?payload"
    using v by (simp add: expired_def example_service_def)
  have env: "new_AuthService example_env = Inr example_service"
    by (simp add: new_AuthService_def example_env_def example_service_def)
  have hdr: "rq_authorization (example_request token) = Some (''Bearer '' @ token)"
    by (simp add: example_request_def)
  have n: "number_to_string 1700604800 = ''1700604800''"
    by (simp add: number_to_string_def digits.simps digit_char_def)
  have fresh: "findById three_sessions (''legacy-'' @ ''u1'' @ ''-'' @ number_to_string 1700604800) = None"
    by (simp add: n findById_def three_sessions_def mk_session_def)
  have three: "length (findActive three_sessions ''u1'' 1700000000123) = 3"
    by (simp add: findActive_def three_sessions_def mk_session_def active_unexpired_def)
  from legacy_token_exceeds_device_limit [OF env hdr ver _ _ _ _ fresh three]
  have "\<exists>db' ctx. authMiddleware example_platform example_env three_sessions 1700000000123 (example_request token)
           = (db', Next ctx)
       \<and> ctx_sessionId ctx = ''legacy-u1-1700604800''
       \<and> length (findActive db' ''u1'' 1700000000123) = 4"
    unfolding n by (simp, blast)
  with sign three show ?thesis by blast
qed

end
